theory Spec2Isabelle
  imports Main "HOL-Library.Word"
begin

unbundle bit_operations_syntax

section \<open>Hardware parameters (chip8.h)\<close>

definition MEM_SIZE :: nat where "MEM_SIZE = 4096"
definition RESERVED_MEM :: nat where "RESERVED_MEM = 512"
definition DISP_W :: nat where "DISP_W = 64"
definition DISP_H :: nat where "DISP_H = 32"
definition DISP_SIZE :: nat where "DISP_SIZE = DISP_W * DISP_H"
definition STACK_SIZE :: nat where "STACK_SIZE = 16"

text \<open>\<open>enum chip8_key\<close>: the keys are the integers 0x0 .. 0xF, and \<open>C8K_NONE\<close> is -1.\<close>

definition C8K_NONE :: int where "C8K_NONE = - 1"

section \<open>Machine state\<close>

text \<open>
  \<open>struct chip8\<close>. A C array is a function from the index; an access is legal only below
  the declared size (\<open>MEM_SIZE\<close>, \<open>DISP_SIZE\<close>, 16, \<open>STACK_SIZE\<close>), and the operations
  below report every access whose index the code does not keep in range as a value of type \<open>ub\<close>.
\<close>

record chip8 =
  memory :: "nat \<Rightarrow> 8 word"
  display :: "nat \<Rightarrow> 8 word"
  V :: "nat \<Rightarrow> 8 word"
  SP :: "8 word"
  DT :: "8 word"
  ST :: "8 word"
  PC :: "16 word"
  I :: "16 word"
  stack :: "nat \<Rightarrow> 16 word"

text \<open>\<open>struct emulator\<close> (the \<open>rom_file\<close> name pointer is left out).\<close>

record emulator =
  cpu :: chip8
  opcode :: "16 word"
  prev_PC :: "16 word"
  keypad :: "16 word"
  last_key :: int
  brk_point :: "32 word"
  clock_speed :: "32 word"
  key_waiting :: bool
  dbg_output :: bool
  brk_point_set :: bool
  paused :: bool

datatype eml_stat =
    EML_OK
  | EML_REDRAW
  | EML_BRK_REACHED
  | EML_UNK_OPC
  | EML_STACK_OVERFL
  | EML_STACK_UNDERFL
  | EML_PC_OVERFL

text \<open>
  What C leaves undefined and the code does not guard: an index past the end of
  \<open>memory\<close> or \<open>stack\<close>, and a shift of an \<open>int\<close> by 31 or more.
\<close>

datatype ub =
    Mem_Read_OOB nat
  | Mem_Write_OOB nat
  | Stack_OOB nat
  | Shift_OOR nat

definition then_do :: "ub + 'a \<Rightarrow> ('a \<Rightarrow> ub + 'b) \<Rightarrow> ub + 'b" where
  "then_do m f = (case m of Inl e \<Rightarrow> Inl e | Inr x \<Rightarrow> f x)"

definition mem_read :: "chip8 \<Rightarrow> nat \<Rightarrow> ub + 8 word" where
  "mem_read c a = (if a < MEM_SIZE then Inr (memory c a) else Inl (Mem_Read_OOB a))"

definition mem_write :: "nat \<Rightarrow> 8 word \<Rightarrow> chip8 \<Rightarrow> ub + chip8" where
  "mem_write a v c =
     (if a < MEM_SIZE then Inr (c\<lparr>memory := (memory c)(a := v)\<rparr>) else Inl (Mem_Write_OOB a))"

text \<open>Chip8 font. Digits 0-F, 5 bytes each.\<close>

definition chip8_fontset :: "8 word list" where
  "chip8_fontset =
    [0xF0, 0x90, 0x90, 0x90, 0xF0, 0x20, 0x60, 0x20, 0x20, 0x70,
     0xF0, 0x10, 0xF0, 0x80, 0xF0, 0xF0, 0x10, 0xF0, 0x10, 0xF0,
     0x90, 0x90, 0xF0, 0x10, 0x10, 0xF0, 0x80, 0xF0, 0x10, 0xF0,
     0xF0, 0x80, 0xF0, 0x90, 0xF0, 0xF0, 0x10, 0x20, 0x40, 0x40,
     0xF0, 0x90, 0xF0, 0x90, 0xF0, 0xF0, 0x90, 0xF0, 0x10, 0xF0,
     0xF0, 0x90, 0xF0, 0x90, 0x90, 0xE0, 0x90, 0xE0, 0x90, 0xE0,
     0xF0, 0x80, 0x80, 0x80, 0xF0, 0xE0, 0x90, 0x90, 0x90, 0xE0,
     0xF0, 0x80, 0xF0, 0x80, 0xF0, 0xF0, 0x80, 0xF0, 0x80, 0x80]"

section \<open>Opcode decoder\<close>

text \<open>Test if a key is pressed: \<open>eml->keypad & (1 << key)\<close>, computed in \<open>int\<close>.\<close>

definition keypad_is_pressed :: "emulator \<Rightarrow> 8 word \<Rightarrow> ub + bool" where
  "keypad_is_pressed eml key =
     (if unat key < 31
      then Inr ((ucast (keypad eml) :: 32 word) AND push_bit (unat key) 1 \<noteq> 0)
      else Inl (Shift_OOR (unat key)))"

definition op_x :: "16 word \<Rightarrow> 8 word" where
  "op_x opc = ucast (drop_bit 8 opc AND 0xF)"

definition op_y :: "16 word \<Rightarrow> 8 word" where
  "op_y opc = ucast (drop_bit 4 opc AND 0xF)"

definition op_kk :: "16 word \<Rightarrow> 8 word" where
  "op_kk opc = ucast (opc AND 0xFF)"

definition op_nnn :: "16 word \<Rightarrow> 16 word" where
  "op_nnn opc = opc AND 0xFFF"

section \<open>Instruction handlers (emulator/chip8.c)\<close>

text \<open>The register file after \<open>eml->cpu.V[i] = v\<close>.\<close>

definition set_V :: "nat \<Rightarrow> 8 word \<Rightarrow> emulator \<Rightarrow> emulator" where
  "set_V i v eml = eml\<lparr>cpu := (cpu eml)\<lparr>V := (V (cpu eml))(i := v)\<rparr>\<rparr>"

definition get_V :: "emulator \<Rightarrow> nat \<Rightarrow> 8 word" where
  "get_V eml i = V (cpu eml) i"

text \<open>\<open>eml->cpu.PC += 2\<close>\<close>

definition skip :: "emulator \<Rightarrow> emulator" where
  "skip eml = eml\<lparr>cpu := (cpu eml)\<lparr>PC := PC (cpu eml) + 2\<rparr>\<rparr>"

text \<open>00E0 - CLS: Clear the display (\<open>memset\<close> of its \<open>DISP_SIZE\<close> bytes).\<close>

definition instr_CLS :: "16 word \<Rightarrow> emulator \<Rightarrow> eml_stat \<times> emulator" where
  "instr_CLS opc eml =
     (EML_REDRAW,
      eml\<lparr>cpu := (cpu eml)\<lparr>display :=
             (\<lambda>p. if p < DISP_SIZE then 0 else display (cpu eml) p)\<rparr>\<rparr>)"

text \<open>00EE - RET: Return from a subroutine.\<close>

definition instr_RET :: "16 word \<Rightarrow> emulator \<Rightarrow> ub + eml_stat \<times> emulator" where
  "instr_RET opc eml =
     (if SP (cpu eml) = 0 then Inr (EML_STACK_UNDERFL, eml)
      else let sp = SP (cpu eml) - 1 in
        if unat sp < STACK_SIZE
        then Inr (EML_OK, eml\<lparr>cpu := (cpu eml)\<lparr>SP := sp, PC := stack (cpu eml) (unat sp)\<rparr>\<rparr>)
        else Inl (Stack_OOB (unat sp)))"

text \<open>1nnn - JP addr: Jump to location nnn.\<close>

definition instr_JP_nnn :: "16 word \<Rightarrow> emulator \<Rightarrow> eml_stat \<times> emulator" where
  "instr_JP_nnn opc eml = (EML_OK, eml\<lparr>cpu := (cpu eml)\<lparr>PC := op_nnn opc\<rparr>\<rparr>)"

text \<open>2nnn - CALL addr: Call subroutine at nnn.\<close>

definition instr_CALL_nnn :: "16 word \<Rightarrow> emulator \<Rightarrow> ub + eml_stat \<times> emulator" where
  "instr_CALL_nnn opc eml =
     (if unat (SP (cpu eml)) = STACK_SIZE then Inr (EML_STACK_OVERFL, eml)
      else let sp = SP (cpu eml) in
        if unat sp < STACK_SIZE
        then Inr (EML_OK, eml\<lparr>cpu := (cpu eml)\<lparr>
               stack := (stack (cpu eml))(unat sp := PC (cpu eml)),
               SP := sp + 1,
               PC := op_nnn opc\<rparr>\<rparr>)
        else Inl (Stack_OOB (unat sp)))"

text \<open>3xkk - SE Vx, byte: Skip next instruction if Vx = kk.\<close>

definition instr_SE_Vx_kk :: "16 word \<Rightarrow> emulator \<Rightarrow> eml_stat \<times> emulator" where
  "instr_SE_Vx_kk opc eml =
     (EML_OK, if get_V eml (unat (op_x opc)) = op_kk opc then skip eml else eml)"

text \<open>4xkk - SNE Vx, byte: Skip next instruction if Vx != kk.\<close>

definition instr_SNE_Vx_kk :: "16 word \<Rightarrow> emulator \<Rightarrow> eml_stat \<times> emulator" where
  "instr_SNE_Vx_kk opc eml =
     (EML_OK, if get_V eml (unat (op_x opc)) \<noteq> op_kk opc then skip eml else eml)"

text \<open>5xy0 - SE Vx, Vy: Skip next instruction if Vx = Vy.\<close>

definition instr_SE_Vx_Vy :: "16 word \<Rightarrow> emulator \<Rightarrow> eml_stat \<times> emulator" where
  "instr_SE_Vx_Vy opc eml =
     (EML_OK, if get_V eml (unat (op_x opc)) = get_V eml (unat (op_y opc))
              then skip eml else eml)"

text \<open>6xkk - LD Vx, byte: Set Vx = kk.\<close>

definition instr_LD_Vx_kk :: "16 word \<Rightarrow> emulator \<Rightarrow> eml_stat \<times> emulator" where
  "instr_LD_Vx_kk opc eml = (EML_OK, set_V (unat (op_x opc)) (op_kk opc) eml)"

text \<open>7xkk - ADD Vx, byte: Set Vx = Vx + kk.\<close>

definition instr_ADD_Vx_kk :: "16 word \<Rightarrow> emulator \<Rightarrow> eml_stat \<times> emulator" where
  "instr_ADD_Vx_kk opc eml =
     (EML_OK, set_V (unat (op_x opc)) (get_V eml (unat (op_x opc)) + op_kk opc) eml)"

text \<open>8xy0 - LD Vx, Vy: Set Vx = Vy.\<close>

definition instr_LD_Vx_Vy :: "16 word \<Rightarrow> emulator \<Rightarrow> eml_stat \<times> emulator" where
  "instr_LD_Vx_Vy opc eml =
     (EML_OK, set_V (unat (op_x opc)) (get_V eml (unat (op_y opc))) eml)"

text \<open>8xy1 - OR Vx, Vy: Set Vx = Vx OR Vy.\<close>

definition instr_OR_Vx_Vy :: "16 word \<Rightarrow> emulator \<Rightarrow> eml_stat \<times> emulator" where
  "instr_OR_Vx_Vy opc eml =
     (EML_OK, set_V (unat (op_x opc))
                (get_V eml (unat (op_x opc)) OR get_V eml (unat (op_y opc))) eml)"

text \<open>8xy2 - AND Vx, Vy: Set Vx = Vx AND Vy.\<close>

definition instr_AND_Vx_Vy :: "16 word \<Rightarrow> emulator \<Rightarrow> eml_stat \<times> emulator" where
  "instr_AND_Vx_Vy opc eml =
     (EML_OK, set_V (unat (op_x opc))
                (get_V eml (unat (op_x opc)) AND get_V eml (unat (op_y opc))) eml)"

text \<open>8xy3 - XOR Vx, Vy: Set Vx = Vx XOR Vy.\<close>

definition instr_XOR_Vx_Vy :: "16 word \<Rightarrow> emulator \<Rightarrow> eml_stat \<times> emulator" where
  "instr_XOR_Vx_Vy opc eml =
     (EML_OK, set_V (unat (op_x opc))
                (get_V eml (unat (op_x opc)) XOR get_V eml (unat (op_y opc))) eml)"

text \<open>
  8xy4 - ADD Vx, Vy: Set Vx = Vx + Vy, set V[0xF] = carry.
  The sum \<open>s\<close> is a \<open>uint16_t\<close>; the flag is stored first, the result second.
\<close>

definition instr_ADD_Vx_Vy :: "16 word \<Rightarrow> emulator \<Rightarrow> eml_stat \<times> emulator" where
  "instr_ADD_Vx_Vy opc eml =
     (let s = (ucast (get_V eml (unat (op_x opc))) :: 16 word)
                + ucast (get_V eml (unat (op_y opc)));
          eml1 = set_V 0xF (if s > 0xFF then 1 else 0) eml;
          eml2 = set_V (unat (op_x opc)) (ucast (s AND 0xFF)) eml1
      in (EML_OK, eml2))"

text \<open>
  8xy5 - SUB Vx, Vy: Set Vx = Vx - Vy, set V[0xF] = NOT borrow.
  The second statement reads Vx and Vy again, after the flag has been stored.
\<close>

definition instr_SUB_Vx_Vy :: "16 word \<Rightarrow> emulator \<Rightarrow> eml_stat \<times> emulator" where
  "instr_SUB_Vx_Vy opc eml =
     (let eml1 = set_V 0xF (if get_V eml (unat (op_x opc)) > get_V eml (unat (op_y opc))
                            then 1 else 0) eml;
          eml2 = set_V (unat (op_x opc))
                   (get_V eml1 (unat (op_x opc)) - get_V eml1 (unat (op_y opc))) eml1
      in (EML_OK, eml2))"

text \<open>8xy6 - SHR Vx {, Vy}: Set Vx = Vx SHR 1.\<close>

definition instr_SHR_Vx__Vy :: "16 word \<Rightarrow> emulator \<Rightarrow> eml_stat \<times> emulator" where
  "instr_SHR_Vx__Vy opc eml =
     (let eml1 = set_V 0xF (get_V eml (unat (op_x opc)) AND 0x01) eml;
          eml2 = set_V (unat (op_x opc)) (drop_bit 1 (get_V eml1 (unat (op_x opc)))) eml1
      in (EML_OK, eml2))"

text \<open>8xy7 - SUBN Vx, Vy: Set Vx = Vy - Vx, set V[0xF] = NOT borrow.\<close>

definition instr_SUBN_Vx_Vy :: "16 word \<Rightarrow> emulator \<Rightarrow> eml_stat \<times> emulator" where
  "instr_SUBN_Vx_Vy opc eml =
     (let eml1 = set_V 0xF (if get_V eml (unat (op_x opc)) < get_V eml (unat (op_y opc))
                            then 1 else 0) eml;
          eml2 = set_V (unat (op_x opc))
                   (get_V eml1 (unat (op_y opc)) - get_V eml1 (unat (op_x opc))) eml1
      in (EML_OK, eml2))"

text \<open>8xyE - SHL Vx {, Vy}: Set Vx = Vx SHL 1 (the \<open>int\<close> result is cut to 8 bits).\<close>

definition instr_SHL_Vx_Vy :: "16 word \<Rightarrow> emulator \<Rightarrow> eml_stat \<times> emulator" where
  "instr_SHL_Vx_Vy opc eml =
     (let eml1 = set_V 0xF (drop_bit 7 (get_V eml (unat (op_x opc)) AND 0x80)) eml;
          eml2 = set_V (unat (op_x opc)) (push_bit 1 (get_V eml1 (unat (op_x opc)))) eml1
      in (EML_OK, eml2))"

text \<open>9xy0 - SNE Vx, Vy: Skip next instruction if Vx != Vy.\<close>

definition instr_SNE_Vx_Vy :: "16 word \<Rightarrow> emulator \<Rightarrow> eml_stat \<times> emulator" where
  "instr_SNE_Vx_Vy opc eml =
     (EML_OK, if get_V eml (unat (op_x opc)) \<noteq> get_V eml (unat (op_y opc))
              then skip eml else eml)"

text \<open>Annn - LD I, addr: Set I = nnn.\<close>

definition instr_LD_I_nnn :: "16 word \<Rightarrow> emulator \<Rightarrow> eml_stat \<times> emulator" where
  "instr_LD_I_nnn opc eml = (EML_OK, eml\<lparr>cpu := (cpu eml)\<lparr>I := op_nnn opc\<rparr>\<rparr>)"

text \<open>Bnnn - JP V0, addr: Jump to location nnn + V0.\<close>

definition instr_JP_V0_nnn :: "16 word \<Rightarrow> emulator \<Rightarrow> eml_stat \<times> emulator" where
  "instr_JP_V0_nnn opc eml =
     (EML_OK, eml\<lparr>cpu := (cpu eml)\<lparr>PC := op_nnn opc + ucast (get_V eml 0)\<rparr>\<rparr>)"

text \<open>
  Cxkk - RND Vx, byte: Set Vx = random byte AND kk.
  \<open>rnd\<close> is the value that the call of \<open>rand()\<close> returns.
\<close>

definition instr_RND_Vx_kk :: "int \<Rightarrow> 16 word \<Rightarrow> emulator \<Rightarrow> eml_stat \<times> emulator" where
  "instr_RND_Vx_kk rnd opc eml =
     (EML_OK, set_V (unat (op_x opc)) (word_of_int rnd AND op_kk opc) eml)"

text \<open>
  Dxyn - DRW Vx, Vy, nibble: Display n-byte sprite starting at memory location I at
  (Vx, Vy), set V[0xF] = collision.

  \<open>drw_pixel\<close> is the body of the inner loop for row \<open>i\<close> and column \<open>j\<close>, on the pair of
  the display and the \<open>collide\<close> flag; \<open>row\<close> is the byte \<open>memory[I + i]\<close>.
\<close>

definition drw_pixel ::
  "nat \<Rightarrow> nat \<Rightarrow> 8 word \<Rightarrow> nat \<Rightarrow> nat \<Rightarrow> (nat \<Rightarrow> 8 word) \<times> 8 word \<Rightarrow> (nat \<Rightarrow> 8 word) \<times> 8 word"
where
  "drw_pixel x y row i j dc =
     (let d_idx = ((i + y) mod DISP_H) * DISP_W + (x + j) mod DISP_W;
          sprt_bit = drop_bit (7 - j) row AND 0x1;
          collide = (if fst dc d_idx = 1 \<and> sprt_bit = 1 then 1 else snd dc)
      in ((fst dc)(d_idx := fst dc d_idx XOR sprt_bit), collide))"

text \<open>
  The outer loop over the rows. The handler does not write \<open>memory\<close>, so the byte that
  each of the eight inner iterations reads is read once, and a row at or past
  \<open>MEM_SIZE\<close> is an out-of-bounds read.
\<close>

fun drw_rows ::
  "chip8 \<Rightarrow> nat \<Rightarrow> nat \<Rightarrow> nat list \<Rightarrow> (nat \<Rightarrow> 8 word) \<times> 8 word
     \<Rightarrow> ub + (nat \<Rightarrow> 8 word) \<times> 8 word"
where
  "drw_rows c x y [] dc = Inr dc"
| "drw_rows c x y (i # rows) dc =
     then_do (mem_read c (unat (I c) + i))
       (\<lambda>row. drw_rows c x y rows (fold (drw_pixel x y row i) [0..<8] dc))"

definition instr_DRW_Vx_Vy_n :: "16 word \<Rightarrow> emulator \<Rightarrow> ub + eml_stat \<times> emulator" where
  "instr_DRW_Vx_Vy_n opc eml =
     (let n = (ucast (opc AND 0xF) :: 8 word);
          x = get_V eml (unat (op_x opc));
          y = get_V eml (unat (op_y opc))
      in then_do (drw_rows (cpu eml) (unat x) (unat y) [0..<unat n] (display (cpu eml), 0))
           (\<lambda>dc. Inr (EML_REDRAW,
                       set_V 0xF (snd dc) (eml\<lparr>cpu := (cpu eml)\<lparr>display := fst dc\<rparr>\<rparr>))))"

text \<open>Ex9E - SKP Vx: Skip next instruction if key with the value of Vx is pressed.\<close>

definition instr_SKP_Vx :: "16 word \<Rightarrow> emulator \<Rightarrow> ub + eml_stat \<times> emulator" where
  "instr_SKP_Vx opc eml =
     then_do (keypad_is_pressed eml (get_V eml (unat (op_x opc))))
       (\<lambda>pressed. Inr (EML_OK, if pressed then skip eml else eml))"

text \<open>ExA1 - SKNP Vx: Skip next instruction if key with the value of Vx is not pressed.\<close>

definition instr_SKNP_Vx :: "16 word \<Rightarrow> emulator \<Rightarrow> ub + eml_stat \<times> emulator" where
  "instr_SKNP_Vx opc eml =
     then_do (keypad_is_pressed eml (get_V eml (unat (op_x opc))))
       (\<lambda>pressed. Inr (EML_OK, if \<not> pressed then skip eml else eml))"

text \<open>Fx07 - LD Vx, DT: Set Vx = delay timer value.\<close>

definition instr_LD_Vx_DT :: "16 word \<Rightarrow> emulator \<Rightarrow> eml_stat \<times> emulator" where
  "instr_LD_Vx_DT opc eml = (EML_OK, set_V (unat (op_x opc)) (DT (cpu eml)) eml)"

text \<open>Fx0A - LD Vx, K: Wait for a key press, store the value of the key in Vx.\<close>

definition instr_LD_Vx_K :: "16 word \<Rightarrow> emulator \<Rightarrow> eml_stat \<times> emulator" where
  "instr_LD_Vx_K opc eml =
     (if last_key eml = C8K_NONE
      then (EML_OK, eml\<lparr>key_waiting := True\<rparr>)
      else (EML_OK, (set_V (unat (op_x opc)) (word_of_int (last_key eml)) eml)
                      \<lparr>last_key := C8K_NONE\<rparr>))"

text \<open>Fx15 - LD DT, Vx: Set delay timer = Vx.\<close>

definition instr_LD_DT_Vx :: "16 word \<Rightarrow> emulator \<Rightarrow> eml_stat \<times> emulator" where
  "instr_LD_DT_Vx opc eml =
     (EML_OK, eml\<lparr>cpu := (cpu eml)\<lparr>DT := get_V eml (unat (op_x opc))\<rparr>\<rparr>)"

text \<open>Fx18 - LD ST, Vx: Set sound timer = Vx.\<close>

definition instr_LD_ST_Vx :: "16 word \<Rightarrow> emulator \<Rightarrow> eml_stat \<times> emulator" where
  "instr_LD_ST_Vx opc eml =
     (EML_OK, eml\<lparr>cpu := (cpu eml)\<lparr>ST := get_V eml (unat (op_x opc))\<rparr>\<rparr>)"

text \<open>Fx1E - ADD I, Vx: Set I = I + Vx (16 bits), then V[0xF] = (I > 0xFFF).\<close>

definition instr_ADD_I_Vx :: "16 word \<Rightarrow> emulator \<Rightarrow> eml_stat \<times> emulator" where
  "instr_ADD_I_Vx opc eml =
     (let eml1 = eml\<lparr>cpu := (cpu eml)\<lparr>I := I (cpu eml) + ucast (get_V eml (unat (op_x opc)))\<rparr>\<rparr>
      in (EML_OK, set_V 0xF (if I (cpu eml1) > 0xFFF then 1 else 0) eml1))"

text \<open>Fx29 - LD F, Vx: Set I = location of sprite for digit Vx.\<close>

definition instr_LD_F_Vx :: "16 word \<Rightarrow> emulator \<Rightarrow> eml_stat \<times> emulator" where
  "instr_LD_F_Vx opc eml =
     (EML_OK, eml\<lparr>cpu := (cpu eml)\<lparr>I := ucast (get_V eml (unat (op_x opc))) * 5\<rparr>\<rparr>)"

text \<open>
  Fx33 - LD B, Vx: Store BCD representation of Vx in memory locations I, I+1, and I+2.
  The indices \<open>I+1\<close> and \<open>I+2\<close> are computed in \<open>int\<close>: they do not wrap at 16 bits.
\<close>

definition instr_LD_B_Vx :: "16 word \<Rightarrow> emulator \<Rightarrow> ub + eml_stat \<times> emulator" where
  "instr_LD_B_Vx opc eml =
     (let vx = get_V eml (unat (op_x opc));
          a = unat (I (cpu eml))
      in then_do (mem_write a (vx div 100) (cpu eml))
          (\<lambda>c1. then_do (mem_write (a + 1) ((vx div 10) mod 10) c1)
          (\<lambda>c2. then_do (mem_write (a + 2) (vx mod 10) c2)
          (\<lambda>c3. Inr (EML_OK, eml\<lparr>cpu := c3\<rparr>)))))"

text \<open>
  Fx55 - LD [I], Vx: Store registers V0 through Vx in memory starting at location I.
  \<open>store_regs\<close> is the loop \<open>for (i = 0; i <= x; i++) memory[I+i] = V[i]\<close>.
\<close>

fun store_regs :: "nat list \<Rightarrow> chip8 \<Rightarrow> ub + chip8" where
  "store_regs [] c = Inr c"
| "store_regs (i # rest) c =
     then_do (mem_write (unat (I c) + i) (V c i) c) (store_regs rest)"

definition instr_LD_I_Vx_multi :: "16 word \<Rightarrow> emulator \<Rightarrow> ub + eml_stat \<times> emulator" where
  "instr_LD_I_Vx_multi opc eml =
     then_do (store_regs [0..<Suc (unat (op_x opc))] (cpu eml))
       (\<lambda>c. Inr (EML_OK, eml\<lparr>cpu := c\<rparr>))"

text \<open>
  Fx65 - LD Vx, [I]: Read registers V0 through Vx from memory starting at location I.
  \<open>load_regs\<close> is the loop \<open>for (i = 0; i <= x; i++) V[i] = memory[I+i]\<close>.
\<close>

fun load_regs :: "nat list \<Rightarrow> chip8 \<Rightarrow> ub + chip8" where
  "load_regs [] c = Inr c"
| "load_regs (i # rest) c =
     then_do (mem_read c (unat (I c) + i))
       (\<lambda>b. load_regs rest (c\<lparr>V := (V c)(i := b)\<rparr>))"

definition instr_LD_Vx_I_multi :: "16 word \<Rightarrow> emulator \<Rightarrow> ub + eml_stat \<times> emulator" where
  "instr_LD_Vx_I_multi opc eml =
     then_do (load_regs [0..<Suc (unat (op_x opc))] (cpu eml))
       (\<lambda>c. Inr (EML_OK, eml\<lparr>cpu := c\<rparr>))"

section \<open>Emulator functions (emulator/chip8.c)\<close>

text \<open>\<open>emulator_init\<close>: everything zero, the font at address 0, no key, PC = 0x200.\<close>

definition emulator_init :: emulator where
  "emulator_init =
     \<lparr>cpu = \<lparr>memory = (\<lambda>a. if a < length chip8_fontset then chip8_fontset ! a else 0),
             display = (\<lambda>p. 0), V = (\<lambda>i. 0), SP = 0, DT = 0, ST = 0,
             PC = 0x200, I = 0, stack = (\<lambda>i. 0)\<rparr>,
      opcode = 0, prev_PC = 0, keypad = 0, last_key = C8K_NONE, brk_point = 0,
      clock_speed = 1080, key_waiting = False, dbg_output = False,
      brk_point_set = False, paused = False\<rparr>"

definition emulator_timer_dec :: "emulator \<Rightarrow> emulator" where
  "emulator_timer_dec eml =
     (let eml1 = (if ST (cpu eml) > 0 then eml\<lparr>cpu := (cpu eml)\<lparr>ST := ST (cpu eml) - 1\<rparr>\<rparr>
                  else eml)
      in if DT (cpu eml1) > 0 then eml1\<lparr>cpu := (cpu eml1)\<lparr>DT := DT (cpu eml1) - 1\<rparr>\<rparr>
         else eml1)"

text \<open>
  \<open>emulator_load_program\<close>: the file is the list of its bytes, \<open>None\<close> when it cannot be
  opened. The bytes go to \<open>memory + RESERVED_MEM\<close> when there are at most
  \<open>MEM_SIZE - RESERVED_MEM\<close> of them.
\<close>

definition emulator_load_program :: "emulator \<Rightarrow> 8 word list option \<Rightarrow> bool \<times> emulator" where
  "emulator_load_program eml file =
     (case file of
        None \<Rightarrow> (False, eml)
      | Some bytes \<Rightarrow>
          if length bytes > MEM_SIZE - RESERVED_MEM then (False, eml)
          else (True, eml\<lparr>cpu := (cpu eml)\<lparr>memory :=
                  (\<lambda>a. if RESERVED_MEM \<le> a \<and> a < RESERVED_MEM + length bytes
                       then bytes ! (a - RESERVED_MEM) else memory (cpu eml) a)\<rparr>\<rparr>))"

text \<open>
  The last \<open>switch\<close> of \<open>emulator_cycle\<close>, family 0xF: no case of it matching leaves
  \<open>status\<close> at its initial value \<open>EML_UNK_OPC\<close>.
\<close>

definition dispatch_F :: "16 word \<Rightarrow> emulator \<Rightarrow> ub + eml_stat \<times> emulator" where
  "dispatch_F opc eml =
     (let lo = opc AND 0xFF in
      if lo = 0x07 then Inr (instr_LD_Vx_DT opc eml)
      else if lo = 0x0A then Inr (instr_LD_Vx_K opc eml)
      else if lo = 0x15 then Inr (instr_LD_DT_Vx opc eml)
      else if lo = 0x18 then Inr (instr_LD_ST_Vx opc eml)
      else if lo = 0x1E then Inr (instr_ADD_I_Vx opc eml)
      else if lo = 0x29 then Inr (instr_LD_F_Vx opc eml)
      else if lo = 0x33 then instr_LD_B_Vx opc eml
      else if lo = 0x55 then instr_LD_I_Vx_multi opc eml
      else if lo = 0x65 then instr_LD_Vx_I_multi opc eml
      else Inr (EML_UNK_OPC, eml))"

text \<open>
  The \<open>switch\<close> of \<open>emulator_cycle\<close> on the top nibble. The inner switches of the cases
  0x0, 0x8 and 0xE have no \<open>default\<close> and no \<open>break\<close> after them: when no inner case
  matches, control falls through to the next case label (0x1, 0x9 and 0xF).
\<close>

definition dispatch :: "int \<Rightarrow> 16 word \<Rightarrow> emulator \<Rightarrow> ub + eml_stat \<times> emulator" where
  "dispatch rnd opc eml =
     (let fam = drop_bit 12 (opc AND 0xF000); lo = opc AND 0xFF; nib = opc AND 0xF in
      if fam = 0x0 then
        (if lo = 0xE0 then Inr (instr_CLS opc eml)
         else if lo = 0xEE then instr_RET opc eml
         else Inr (instr_JP_nnn opc eml))
      else if fam = 0x1 then Inr (instr_JP_nnn opc eml)
      else if fam = 0x2 then instr_CALL_nnn opc eml
      else if fam = 0x3 then Inr (instr_SE_Vx_kk opc eml)
      else if fam = 0x4 then Inr (instr_SNE_Vx_kk opc eml)
      else if fam = 0x5 then Inr (instr_SE_Vx_Vy opc eml)
      else if fam = 0x6 then Inr (instr_LD_Vx_kk opc eml)
      else if fam = 0x7 then Inr (instr_ADD_Vx_kk opc eml)
      else if fam = 0x8 then
        (if nib = 0x0 then Inr (instr_LD_Vx_Vy opc eml)
         else if nib = 0x1 then Inr (instr_OR_Vx_Vy opc eml)
         else if nib = 0x2 then Inr (instr_AND_Vx_Vy opc eml)
         else if nib = 0x3 then Inr (instr_XOR_Vx_Vy opc eml)
         else if nib = 0x4 then Inr (instr_ADD_Vx_Vy opc eml)
         else if nib = 0x5 then Inr (instr_SUB_Vx_Vy opc eml)
         else if nib = 0x6 then Inr (instr_SHR_Vx__Vy opc eml)
         else if nib = 0x7 then Inr (instr_SUBN_Vx_Vy opc eml)
         else if nib = 0xE then Inr (instr_SHL_Vx_Vy opc eml)
         else Inr (instr_SNE_Vx_Vy opc eml))
      else if fam = 0x9 then Inr (instr_SNE_Vx_Vy opc eml)
      else if fam = 0xA then Inr (instr_LD_I_nnn opc eml)
      else if fam = 0xB then Inr (instr_JP_V0_nnn opc eml)
      else if fam = 0xC then Inr (instr_RND_Vx_kk rnd opc eml)
      else if fam = 0xD then instr_DRW_Vx_Vy_n opc eml
      else if fam = 0xE then
        (if lo = 0x9E then instr_SKP_Vx opc eml
         else if lo = 0xA1 then instr_SKNP_Vx opc eml
         else dispatch_F opc eml)
      else dispatch_F opc eml)"

text \<open>The fetch \<open>memory[PC] << 8 | memory[PC + 1]\<close>, stored in the 16-bit \<open>opcode\<close>.\<close>

definition fetch :: "chip8 \<Rightarrow> 16 word" where
  "fetch c = push_bit 8 (ucast (memory c (unat (PC c)))) OR ucast (memory c (unat (PC c) + 1))"

text \<open>
  \<open>emulator_cycle\<close>. The guard \<open>PC + 1 >= MEM_SIZE\<close> is computed in \<open>int\<close> and keeps both
  bytes of the fetch inside \<open>memory\<close>. The debug print changes no state.
\<close>

definition emulator_cycle :: "int \<Rightarrow> emulator \<Rightarrow> ub + eml_stat \<times> emulator" where
  "emulator_cycle rnd eml =
     (if key_waiting eml then Inr (EML_OK, eml)
      else if unat (PC (cpu eml)) + 1 \<ge> MEM_SIZE then Inr (EML_PC_OVERFL, eml)
      else
        let eml1 = eml\<lparr>opcode := fetch (cpu eml)\<rparr>;
            eml2 = eml1\<lparr>prev_PC := PC (cpu eml1)\<rparr>;
            eml3 = eml2\<lparr>cpu := (cpu eml2)\<lparr>PC := PC (cpu eml2) + 2\<rparr>\<rparr>
        in then_do (dispatch rnd (opcode eml3) eml3)
             (\<lambda>r. if brk_point_set (snd r) \<and> uint (prev_PC (snd r)) = sint (brk_point (snd r))
                  then Inr (EML_BRK_REACHED, snd r)
                  else Inr r))"

section \<open>The keypad setters of the driver (emulator/main.c)\<close>

text \<open>
  \<open>keypad_pressed\<close> and \<open>keypad_released\<close>; \<open>k\<close> is the keypad code \<open>sdlk_to_c8k(key)\<close>,
  which is one of 0x0 .. 0xF.
\<close>

definition keypad_pressed :: "emulator \<Rightarrow> 8 word \<Rightarrow> emulator" where
  "keypad_pressed eml k =
     (let eml1 = eml\<lparr>keypad := keypad eml OR push_bit (unat k) 1\<rparr>
      in if key_waiting eml1 then eml1\<lparr>last_key := uint k, key_waiting := False\<rparr> else eml1)"

definition keypad_released :: "emulator \<Rightarrow> 8 word \<Rightarrow> emulator" where
  "keypad_released eml k = eml\<lparr>keypad := keypad eml XOR push_bit (unat k) 1\<rparr>"

section \<open>The single-file interpreter (src/chip8.c)\<close>

text \<open>
  \<open>src/chip8.c\<close> is the same interpreter in one file. Its machine state and emulator data
  are file-scope variables that carry the names and widths of the fields of \<open>struct chip8\<close>
  and \<open>struct emulator\<close> (it has no \<open>paused\<close>); the model keeps them in the record
  \<open>emulator\<close>, so \<open>set_V i v\<close> is \<open>V[i] = v\<close> and \<open>opcode eml\<close> is the global \<open>opcode\<close> that
  the handlers read. Its \<open>enum eml_stat\<close> has one more member, \<open>EML_WAIT_KEY\<close>.
\<close>

datatype eml_stat_single =
    EML_OK_s
  | EML_REDRAW_s
  | EML_WAIT_KEY
  | EML_BRK_REACHED_s
  | EML_UNK_OPC_s
  | EML_STACK_OVERFL_s
  | EML_STACK_UNDERFL_s
  | EML_PC_OVERFL_s

text \<open>
  \<open>_b8\<close>: the instructions 8xyn, selected by \<open>opcode & 0x000F\<close>. Each case is the pair of
  statements of the handler of the same instruction in emulator/chip8.c.
\<close>

definition b8 :: "emulator \<Rightarrow> eml_stat_single \<times> emulator" where
  "b8 eml =
     (let n = opcode eml AND 0x000F;
          x = unat (op_x (opcode eml));
          y = unat (op_y (opcode eml))
      in if n = 0x0 then (EML_OK_s, set_V x (get_V eml y) eml)
      else if n = 0x1 then (EML_OK_s, set_V x (get_V eml x OR get_V eml y) eml)
      else if n = 0x2 then (EML_OK_s, set_V x (get_V eml x AND get_V eml y) eml)
      else if n = 0x3 then (EML_OK_s, set_V x (get_V eml x XOR get_V eml y) eml)
      else if n = 0x4 then
        (let s = (ucast (get_V eml x) :: 16 word) + ucast (get_V eml y);
             eml1 = set_V 0xF (if s > 0xFF then 1 else 0) eml
         in (EML_OK_s, set_V x (ucast (s AND 0xFF)) eml1))
      else if n = 0x5 then
        (let eml1 = set_V 0xF (if get_V eml x > get_V eml y then 1 else 0) eml
         in (EML_OK_s, set_V x (get_V eml1 x - get_V eml1 y) eml1))
      else if n = 0x6 then
        (let eml1 = set_V 0xF (get_V eml x AND 0x01) eml
         in (EML_OK_s, set_V x (drop_bit 1 (get_V eml1 x)) eml1))
      else if n = 0x7 then
        (let eml1 = set_V 0xF (if get_V eml x < get_V eml y then 1 else 0) eml
         in (EML_OK_s, set_V x (get_V eml1 y - get_V eml1 x) eml1))
      else if n = 0xE then
        (let eml1 = set_V 0xF (drop_bit 7 (get_V eml x AND 0x80)) eml
         in (EML_OK_s, set_V x (push_bit 1 (get_V eml1 x)) eml1))
      else (EML_UNK_OPC_s, eml))"

text \<open>
  \<open>_bF\<close>: the instructions Fxnn, selected by \<open>opcode & 0x00FF\<close>. Fx55 and Fx65 run the
  loops \<open>store_regs\<close> and \<open>load_regs\<close> and then execute \<open>I += op_x(opcode) + 1\<close>, which
  the handlers of emulator/chip8.c do not have; Fx0A reports \<open>EML_WAIT_KEY\<close> when it
  starts to wait.
\<close>

definition bF :: "emulator \<Rightarrow> ub + eml_stat_single \<times> emulator" where
  "bF eml =
     (let lo = opcode eml AND 0x00FF;
          x = unat (op_x (opcode eml))
      in if lo = 0x07 then Inr (EML_OK_s, set_V x (DT (cpu eml)) eml)
      else if lo = 0x0A then
        (if last_key eml = C8K_NONE
         then Inr (EML_WAIT_KEY, eml\<lparr>key_waiting := True\<rparr>)
         else Inr (EML_OK_s, (set_V x (word_of_int (last_key eml)) eml)
                               \<lparr>last_key := C8K_NONE\<rparr>))
      else if lo = 0x15 then Inr (EML_OK_s, eml\<lparr>cpu := (cpu eml)\<lparr>DT := get_V eml x\<rparr>\<rparr>)
      else if lo = 0x18 then Inr (EML_OK_s, eml\<lparr>cpu := (cpu eml)\<lparr>ST := get_V eml x\<rparr>\<rparr>)
      else if lo = 0x1E then
        (let eml1 = eml\<lparr>cpu := (cpu eml)\<lparr>I := I (cpu eml) + ucast (get_V eml x)\<rparr>\<rparr>
         in Inr (EML_OK_s, set_V 0xF (if I (cpu eml1) > 0xFFF then 1 else 0) eml1))
      else if lo = 0x29 then
        Inr (EML_OK_s, eml\<lparr>cpu := (cpu eml)\<lparr>I := ucast (get_V eml x) * 5\<rparr>\<rparr>)
      else if lo = 0x33 then
        (let vx = get_V eml x;
             a = unat (I (cpu eml))
         in then_do (mem_write a (vx div 100) (cpu eml))
             (\<lambda>c1. then_do (mem_write (a + 1) ((vx div 10) mod 10) c1)
             (\<lambda>c2. then_do (mem_write (a + 2) (vx mod 10) c2)
             (\<lambda>c3. Inr (EML_OK_s, eml\<lparr>cpu := c3\<rparr>)))))
      else if lo = 0x55 then
        then_do (store_regs [0..<Suc x] (cpu eml))
          (\<lambda>c. Inr (EML_OK_s, eml\<lparr>cpu := c\<lparr>I := I c + (ucast (op_x (opcode eml)) + 1)\<rparr>\<rparr>))
      else if lo = 0x65 then
        then_do (load_regs [0..<Suc x] (cpu eml))
          (\<lambda>c. Inr (EML_OK_s, eml\<lparr>cpu := c\<lparr>I := I c + (ucast (op_x (opcode eml)) + 1)\<rparr>\<rparr>))
      else Inr (EML_UNK_OPC_s, eml))"

section \<open>Statements about the ALU instructions\<close>

text \<open>
  What 8xy4 is expected to do with \<open>a\<close> in Vx and \<open>b\<close> in Vy: V[0xF] is 1 iff
  \<open>a + b > 255\<close>, and Vx holds \<open>(a + b) mod 256\<close>.
\<close>

definition ADD_sets_carry_and_sum :: "16 word \<Rightarrow> emulator \<Rightarrow> bool" where
  "ADD_sets_carry_and_sum opc eml =
     (let a = unat (get_V eml (unat (op_x opc)));
          b = unat (get_V eml (unat (op_y opc)));
          eml' = snd (instr_ADD_Vx_Vy opc eml)
      in get_V eml' 0xF = (if a + b > 255 then 1 else 0)
         \<and> unat (get_V eml' (unat (op_x opc))) = (a + b) mod 256)"

text \<open>
  What 8xy5 is expected to do: V[0xF] is 1 iff \<open>a > b\<close>, and Vx holds \<open>(a - b) mod 256\<close>.
\<close>

definition SUB_sets_flag_and_difference :: "16 word \<Rightarrow> emulator \<Rightarrow> bool" where
  "SUB_sets_flag_and_difference opc eml =
     (let a = uint (get_V eml (unat (op_x opc)));
          b = uint (get_V eml (unat (op_y opc)));
          eml' = snd (instr_SUB_Vx_Vy opc eml)
      in get_V eml' 0xF = (if a > b then 1 else 0)
         \<and> uint (get_V eml' (unat (op_x opc))) = (a - b) mod 256)"

text \<open>A state with V0 = 100 and VF = 200, and one with V0 = 3 and VF = 10.\<close>

definition alu_state_200_100 :: emulator where
  "alu_state_200_100 = set_V 0 100 (set_V 0xF 200 emulator_init)"

definition alu_state_10_3 :: emulator where
  "alu_state_10_3 = set_V 0 3 (set_V 0xF 10 emulator_init)"

section \<open>Programs and states used as examples\<close>

text \<open>The emulator after \<open>emulator_init\<close> and a successful load of the bytes at 0x200.\<close>

definition boot :: "8 word list \<Rightarrow> emulator" where
  "boot bytes = snd (emulator_load_program emulator_init (Some bytes))"

text \<open>
  The program \<open>612A\<close> (LD V1, 0x2A) with a breakpoint on its address, and the state that
  one cycle without the breakpoint leaves.
\<close>

definition brk_demo :: emulator where
  "brk_demo = (boot [0x61, 0x2A])\<lparr>brk_point := 0x200, brk_point_set := True\<rparr>"

definition brk_demo_after :: emulator where
  "brk_demo_after =
     (set_V 1 0x2A (skip brk_demo))\<lparr>opcode := 0x612A, prev_PC := 0x200, brk_point_set := False\<rparr>"

text \<open>The program \<open>00EE\<close> (RET) on the empty stack, and the state its cycle leaves.\<close>

definition ret_demo :: emulator where
  "ret_demo = boot [0x00, 0xEE]"

definition ret_demo_after :: emulator where
  "ret_demo_after = (skip ret_demo)\<lparr>opcode := 0x00EE, prev_PC := 0x200\<rparr>"

text \<open>
  Opcodes that match no instruction pattern, with the states that their cycles leave:
  \<open>0123\<close> (family 0, low byte neither E0 nor EE), \<open>8128\<close> with V1 = 5 and V2 = 0
  (family 8, low nibble 8), and \<open>E107\<close> with DT = 9 (family E, low byte neither 9E nor A1).
\<close>

definition unk0_demo :: emulator where
  "unk0_demo = boot [0x01, 0x23]"

definition unk0_after :: emulator where
  "unk0_after = unk0_demo\<lparr>opcode := 0x0123, prev_PC := 0x200,
                             cpu := (cpu unk0_demo)\<lparr>PC := 0x123\<rparr>\<rparr>"

definition unk8_demo :: emulator where
  "unk8_demo = set_V 1 5 (boot [0x81, 0x28])"

definition unk8_after :: emulator where
  "unk8_after = unk8_demo\<lparr>opcode := 0x8128, prev_PC := 0x200,
                             cpu := (cpu unk8_demo)\<lparr>PC := 0x204\<rparr>\<rparr>"

definition unkE_demo :: emulator where
  "unkE_demo = (boot [0xE1, 0x07])\<lparr>cpu := (cpu (boot [0xE1, 0x07]))\<lparr>DT := 9\<rparr>\<rparr>"

definition unkE_after :: emulator where
  "unkE_after = (set_V 1 9 (skip unkE_demo))\<lparr>opcode := 0xE107, prev_PC := 0x200\<rparr>"

text \<open>
  The program \<open>F00A\<close> (LD V0, K), \<open>612A\<close> (LD V1, 0x2A): the state after the first cycle,
  and the state after key 7 was pressed and one more cycle ran.
\<close>

definition key_demo :: emulator where
  "key_demo = boot [0xF0, 0x0A, 0x61, 0x2A]"

definition key_demo_waiting :: emulator where
  "key_demo_waiting =
     (skip key_demo)\<lparr>opcode := 0xF00A, prev_PC := 0x200, key_waiting := True\<rparr>"

definition key_demo_after :: emulator where
  "key_demo_after =
     (set_V 1 0x2A (skip (keypad_pressed key_demo_waiting 7)))
       \<lparr>opcode := 0x612A, prev_PC := 0x202\<rparr>"

text \<open>
  The cycle loop of \<open>main\<close> without input events: one cycle per element of the list (the
  element is what \<open>rand()\<close> returns in that cycle), stopping after the first status that
  \<open>main\<close> treats as a fault. The result lists the statuses of the cycles that ran.
\<close>

fun run_cycles :: "int list \<Rightarrow> emulator \<Rightarrow> ub + eml_stat list \<times> emulator" where
  "run_cycles [] eml = Inr ([], eml)"
| "run_cycles (rnd # rest) eml =
     then_do (emulator_cycle rnd eml)
       (\<lambda>r. if fst r \<in> {EML_UNK_OPC, EML_STACK_OVERFL, EML_STACK_UNDERFL, EML_BRK_REACHED}
            then Inr ([fst r], snd r)
            else then_do (run_cycles rest (snd r)) (\<lambda>q. Inr (fst r # fst q, snd q)))"

text \<open>
  V0 = 7, V1 = 9, V2 = 5 and I = 0 (the font), with the states that F155 and F165 leave.
\<close>

definition regs_demo :: emulator where
  "regs_demo = set_V 2 5 (set_V 1 9 (set_V 0 7 emulator_init))"

definition regs_demo_stored :: emulator where
  "regs_demo_stored =
     regs_demo\<lparr>cpu := (cpu regs_demo)\<lparr>memory := (memory (cpu regs_demo))(0 := 7, 1 := 9)\<rparr>\<rparr>"

definition regs_demo_loaded :: emulator where
  "regs_demo_loaded =
     regs_demo\<lparr>cpu := (cpu regs_demo)\<lparr>V := (V (cpu regs_demo))(0 := 0xF0, 1 := 0x90)\<rparr>\<rparr>"

text \<open>
  The same registers in the single-file interpreter with F155 and with F165 as the
  opcode that \<open>_bF\<close> reads, and the states that \<open>_bF\<close> leaves.
\<close>

definition regs_single_F155 :: emulator where
  "regs_single_F155 = regs_demo\<lparr>opcode := 0xF155\<rparr>"

definition regs_single_F155_after :: emulator where
  "regs_single_F155_after =
     regs_single_F155\<lparr>cpu := (cpu regs_single_F155)
       \<lparr>memory := (memory (cpu regs_single_F155))(0 := 7, 1 := 9), I := 2\<rparr>\<rparr>"

definition regs_single_F165 :: emulator where
  "regs_single_F165 = regs_demo\<lparr>opcode := 0xF165\<rparr>"

definition regs_single_F165_after :: emulator where
  "regs_single_F165_after =
     regs_single_F165\<lparr>cpu := (cpu regs_single_F165)
       \<lparr>V := (V (cpu regs_single_F165))(0 := 0xF0, 1 := 0x90), I := 2\<rparr>\<rparr>"

text \<open>
  The programs \<open>6064\<close>, \<open>6FC8\<close>, \<open>80F5\<close> (V0 = 100, VF = 200, SUB V0, VF) and \<open>6F0A\<close>,
  \<open>6003\<close>, \<open>8F05\<close> (VF = 10, V0 = 3, SUB VF, V0); and what a run leaves: the statuses of
  its cycles with the final VF and V0.
\<close>

definition sub_flag_source_demo :: emulator where
  "sub_flag_source_demo = boot [0x60, 0x64, 0x6F, 0xC8, 0x80, 0xF5]"

definition sub_flag_dest_demo :: emulator where
  "sub_flag_dest_demo = boot [0x6F, 0x0A, 0x60, 0x03, 0x8F, 0x05]"

definition flag_and_V0 ::
  "ub + eml_stat list \<times> emulator \<Rightarrow> ub + eml_stat list \<times> 8 word \<times> 8 word" where
  "flag_and_V0 run = then_do run (\<lambda>r. Inr (fst r, get_V (snd r) 0xF, get_V (snd r) 0))"

section \<open>Nested calls in memory\<close>

text \<open>The 16-bit word that a fetch at address \<open>a\<close> reads.\<close>

definition word_at :: "(nat \<Rightarrow> 8 word) \<Rightarrow> nat \<Rightarrow> 16 word" where
  "word_at mem a = push_bit 8 (ucast (mem a)) OR ucast (mem (a + 1))"

text \<open>
  \<open>calls_nested mem pc k\<close>: the instruction at \<open>pc\<close> is a CALL (2nnn) that can be
  fetched, and so are the next \<open>k - 1\<close> instructions reached by following the call targets.
\<close>

fun calls_nested :: "(nat \<Rightarrow> 8 word) \<Rightarrow> 16 word \<Rightarrow> nat \<Rightarrow> bool" where
  "calls_nested mem pc 0 = True"
| "calls_nested mem pc (Suc k) =
     (unat pc + 1 < MEM_SIZE
      \<and> drop_bit 12 (word_at mem (unat pc) AND 0xF000) = 0x2
      \<and> calls_nested mem (op_nnn (word_at mem (unat pc))) k)"

text \<open>
  The programs \<open>2200\<close> (CALL 0x200, calling itself) and \<open>2204\<close>, \<open>0000\<close>, \<open>00EE\<close> (CALL 0x204
  with a RET at 0x204).
\<close>

definition call_demo :: emulator where
  "call_demo = boot [0x22, 0x00]"

definition callret_demo :: emulator where
  "callret_demo = boot [0x22, 0x04, 0x00, 0x00, 0x00, 0xEE]"

text \<open>The state of the second program after its CALL.\<close>

definition callret_called :: emulator where
  "callret_called =
     callret_demo\<lparr>opcode := 0x2204, prev_PC := 0x200,
                  cpu := (cpu callret_demo)\<lparr>PC := 0x204,
                           stack := (stack (cpu callret_demo))(0 := 0x202), SP := 1\<rparr>\<rparr>"

section \<open>Statements about the sprite draw\<close>

text \<open>
  The display index of the sprite pixel in row \<open>i\<close> and column \<open>j\<close> of a sprite drawn at
  \<open>(x, y)\<close>: the row \<open>y + i\<close> wraps modulo 32 and the column \<open>x + j\<close> modulo 64, each pixel
  for itself; the display is stored row by row.
\<close>

definition pixel_index :: "nat \<Rightarrow> nat \<Rightarrow> nat \<Rightarrow> nat \<Rightarrow> nat" where
  "pixel_index x y i j = ((y + i) mod 32) * 64 + (x + j) mod 64"

text \<open>The sprite pixel in row \<open>i\<close>, column \<open>j\<close>: bit \<open>7 - j\<close> of the byte \<open>memory[I + i]\<close>.\<close>

definition sprite_bit :: "chip8 \<Rightarrow> nat \<Rightarrow> nat \<Rightarrow> 8 word" where
  "sprite_bit c i j = drop_bit (7 - j) (memory c (unat (I c) + i)) AND 1"

text \<open>
  One XOR update of the pair of display and collision flag, at the index \<open>f k\<close> with the
  bit \<open>b k\<close>; the loops of the draw handler are a fold of such updates.
\<close>

definition xor_step ::
  "('k \<Rightarrow> nat) \<Rightarrow> ('k \<Rightarrow> 8 word) \<Rightarrow> 'k \<Rightarrow> (nat \<Rightarrow> 8 word) \<times> 8 word \<Rightarrow> (nat \<Rightarrow> 8 word) \<times> 8 word"
where
  "xor_step f b k dc =
     ((fst dc)(f k := fst dc (f k) XOR b k),
      if fst dc (f k) = 1 \<and> b k = 1 then 1 else snd dc)"

text \<open>
  V0 = 60, V1 = 0 and I at the byte 0xFF of the loaded program (an 8x1 sprite with every
  pixel set, to be drawn at (60, 0)); and I = 0x300, where memory is zero (a blank sprite),
  on the empty display.
\<close>

definition draw_demo :: emulator where
  "draw_demo =
     set_V 0 60 (snd (instr_LD_I_nnn 0xA206 (boot [0x60, 0x3C, 0xA2, 0x06, 0xD0, 0x11, 0xFF])))"

definition blank_demo :: emulator where
  "blank_demo = snd (instr_LD_I_nnn 0xA300 emulator_init)"

section \<open>Word arithmetic of the handlers\<close>

lemma unat8_lt: "unat (a :: 8 word) < 256"
  using unsigned_less [of a] by simp

lemma unat_ucast_8_16: "unat (ucast (a :: 8 word) :: 16 word) = unat a"
  using unat8_lt [of a] by (simp add: unsigned_ucast_eq take_bit_nat_eq_self)

lemma unat_sum16:
  "unat ((ucast (a :: 8 word) :: 16 word) + ucast (b :: 8 word)) = unat a + unat b"
  using unat8_lt [of a] unat8_lt [of b]
  by (simp add: unat_word_ariths unat_ucast_8_16)

lemma add_carry:
  "((ucast (a :: 8 word) :: 16 word) + ucast (b :: 8 word) > 0xFF) = (unat a + unat b > 255)"
  by (simp add: word_less_nat_alt unat_sum16)

lemma mask8: "(0xFF :: 16 word) = mask 8"
  by (simp add: mask_eq_exp_minus_1)

lemma mask4: "(0xF :: 16 word) = mask 4"
  by (simp add: mask_eq_exp_minus_1)

lemma ucast_and_FF: "(ucast ((s :: 16 word) AND 0xFF) :: 8 word) = ucast s"
  unfolding mask8 by (auto simp add: bit_eq_iff bit_simps)

lemma unat_ucast_16_8: "unat (ucast (s :: 16 word) :: 8 word) = unat s mod 256"
  by (simp add: unsigned_ucast_eq take_bit_eq_mod)

lemma unat_add8: "unat ((a :: 8 word) + b) = (unat a + unat b) mod 256"
  by (simp add: unat_word_ariths)

lemma uint_sub8: "uint ((a :: 8 word) - b) = (uint a - uint b) mod 256"
  by (simp add: uint_word_ariths)

lemma add_low:
  "(ucast (((ucast (a :: 8 word) :: 16 word) + ucast (b :: 8 word)) AND 0xFF) :: 8 word) = a + b"
  unfolding ucast_and_FF word_unat_eq_iff unat_ucast_16_8 unat_sum16 unat_add8 ..

lemma shl_bit: "drop_bit 7 (a :: 8 word) AND 1 = (if bit a 7 then 1 else 0)"
  by (simp add: and_one_eq bit_iff_odd_drop_bit mod_2_eq_odd)

lemma and_F_lt: "unat ((w :: 16 word) AND 0xF) < 16"
proof -
  have "w AND mask 4 < 2 ^ 4" by (rule and_mask_less') simp
  then show ?thesis by (simp add: mask4 word_less_nat_alt)
qed

lemma op_x_lt: "unat (op_x opc) < 16"
  unfolding op_x_def using and_F_lt [of "drop_bit 8 opc"]
  by (simp add: unsigned_ucast_eq take_bit_nat_eq_self)

lemma op_y_lt: "unat (op_y opc) < 16"
  unfolding op_y_def using and_F_lt [of "drop_bit 4 opc"]
  by (simp add: unsigned_ucast_eq take_bit_nat_eq_self)

lemma get_set_V: "get_V (set_V i v eml) j = (if j = i then v else get_V eml j)"
  by (simp add: get_V_def set_V_def)

section \<open>Carry and borrow of 8xy4 and 8xy5\<close>

text \<open>
  Where the handlers do what is expected of them: 8xy4 whenever Vx is not the flag
  register V[0xF]; the flag of 8xy5 whenever Vx is not V[0xF], whatever Vy is; the
  difference of 8xy5 when neither Vx nor Vy is V[0xF].
\<close>

lemma alu_add_sub_distinct_registers:
  "unat (op_x opc) \<noteq> 0xF \<Longrightarrow>
     ADD_sets_carry_and_sum opc eml
     \<and> get_V (snd (instr_SUB_Vx_Vy opc eml)) 0xF
         = (if get_V eml (unat (op_x opc)) > get_V eml (unat (op_y opc)) then 1 else 0)
     \<and> (unat (op_y opc) \<noteq> 0xF \<longrightarrow> SUB_sets_flag_and_difference opc eml)"
proof (intro conjI impI)
  assume x: "unat (op_x opc) \<noteq> 0xF"
  show "ADD_sets_carry_and_sum opc eml"
    using x by (simp add: ADD_sets_carry_and_sum_def instr_ADD_Vx_Vy_def Let_def
        get_set_V add_carry add_low unat_add8)
  show "get_V (snd (instr_SUB_Vx_Vy opc eml)) 0xF
         = (if get_V eml (unat (op_x opc)) > get_V eml (unat (op_y opc)) then 1 else 0)"
    using x by (simp add: instr_SUB_Vx_Vy_def Let_def get_set_V)
  assume y: "unat (op_y opc) \<noteq> 0xF"
  show "SUB_sets_flag_and_difference opc eml"
    using x y by (simp add: SUB_sets_flag_and_difference_def instr_SUB_Vx_Vy_def Let_def
        get_set_V uint_sub8 word_less_def)
qed

text \<open>
  C5 (the code at the failing input). V0 = 100, VF = 200 and 80F5 (SUB V0, VF): what is
  expected is VF = 0, since 100 > 200 is false, and V0 = (100 - 200) mod 256 = 156.
  \<open>instr_SUB_Vx_Vy\<close> stores the flag 0 in V[0xF] and then subtracts V[0xF], read again,
  from V0: V0 stays 100. The run of the program \<open>6064\<close>, \<open>6FC8\<close>, \<open>80F5\<close> ends with the same
  registers, and so does \<open>_b8\<close> of src/chip8.c. At 80F4 with the same registers the sum
  is taken before the flag is stored, and V0 = 44 with VF = 1 is as expected.
\<close>

theorem sub_reads_stored_flag:
  "get_V alu_state_200_100 0 = 100 \<and> get_V alu_state_200_100 0xF = 200
   \<and> unat (op_x 0x80F5) = 0 \<and> unat (op_y 0x80F5) = 0xF
   \<and> (100 - 200 :: int) mod 256 = 156
   \<and> get_V (snd (instr_SUB_Vx_Vy 0x80F5 alu_state_200_100)) 0xF = 0
   \<and> get_V (snd (instr_SUB_Vx_Vy 0x80F5 alu_state_200_100)) 0 = 100
   \<and> \<not> SUB_sets_flag_and_difference 0x80F5 alu_state_200_100
   \<and> flag_and_V0 (run_cycles [0, 0, 0] sub_flag_source_demo)
       = Inr ([EML_OK, EML_OK, EML_OK], 0, 100)
   \<and> get_V (snd (b8 (alu_state_200_100\<lparr>opcode := 0x80F5\<rparr>))) 0xF = 0
   \<and> get_V (snd (b8 (alu_state_200_100\<lparr>opcode := 0x80F5\<rparr>))) 0 = 100
   \<and> ADD_sets_carry_and_sum 0x80F4 alu_state_200_100
   \<and> get_V (snd (instr_ADD_Vx_Vy 0x80F4 alu_state_200_100)) 0xF = 1
   \<and> get_V (snd (instr_ADD_Vx_Vy 0x80F4 alu_state_200_100)) 0 = 44"
proof -
  have regs: "get_V alu_state_200_100 0 = 100 \<and> get_V alu_state_200_100 0xF = 200
      \<and> unat (op_x 0x80F5) = 0 \<and> unat (op_y 0x80F5) = 0xF
      \<and> (100 - 200 :: int) mod 256 = 156"
    by (simp add: alu_state_200_100_def get_set_V op_x_def op_y_def)
  have sub: "get_V (snd (instr_SUB_Vx_Vy 0x80F5 alu_state_200_100)) 0xF = 0
      \<and> get_V (snd (instr_SUB_Vx_Vy 0x80F5 alu_state_200_100)) 0 = 100
      \<and> \<not> SUB_sets_flag_and_difference 0x80F5 alu_state_200_100"
    by (simp add: SUB_sets_flag_and_difference_def instr_SUB_Vx_Vy_def Let_def
        alu_state_200_100_def get_set_V op_x_def op_y_def)
  have run: "flag_and_V0 (run_cycles [0, 0, 0] sub_flag_source_demo)
       = Inr ([EML_OK, EML_OK, EML_OK], 0, 100)"
    by (simp add: flag_and_V0_def sub_flag_source_demo_def boot_def emulator_load_program_def
        emulator_init_def emulator_cycle_def fetch_def dispatch_def MEM_SIZE_def
        RESERVED_MEM_def C8K_NONE_def Let_def then_do_def set_V_def get_V_def
        op_x_def op_y_def op_kk_def instr_LD_Vx_kk_def instr_SUB_Vx_Vy_def)
  have single: "get_V (snd (b8 (alu_state_200_100\<lparr>opcode := 0x80F5\<rparr>))) 0xF = 0
      \<and> get_V (snd (b8 (alu_state_200_100\<lparr>opcode := 0x80F5\<rparr>))) 0 = 100"
    by (simp add: b8_def Let_def alu_state_200_100_def get_V_def set_V_def op_x_def op_y_def)
  have add: "ADD_sets_carry_and_sum 0x80F4 alu_state_200_100
      \<and> get_V (snd (instr_ADD_Vx_Vy 0x80F4 alu_state_200_100)) 0xF = 1
      \<and> get_V (snd (instr_ADD_Vx_Vy 0x80F4 alu_state_200_100)) 0 = 44"
    by (simp add: ADD_sets_carry_and_sum_def instr_ADD_Vx_Vy_def Let_def
        alu_state_200_100_def get_set_V op_x_def op_y_def)
  from regs sub run single add show ?thesis by (intro conjI) simp_all
qed

section \<open>The flag register as destination\<close>

text \<open>
  With x = 0xF, 8xy4 leaves the sum mod 256 in V[0xF]: the sum is taken before the flag
  is stored.
\<close>

lemma add_flag_destination:
  "unat (op_x opc) = 0xF \<Longrightarrow>
     get_V (snd (instr_ADD_Vx_Vy opc eml)) 0xF = get_V eml 0xF + get_V eml (unat (op_y opc))"
  by (simp add: instr_ADD_Vx_Vy_def Let_def get_set_V add_low)

text \<open>
  C10 (the code at the failing input). VF = 10, V0 = 3 and the destination V[0xF]: the
  arithmetic results are 10 - 3 = 7 for 8F05 and (3 - 10) mod 256 = 249 for 8F07, the
  shifted values are 5 for 8F06 and 20 for 8F0E. The handlers store the flag in V[0xF]
  and then compute from V[0xF], read again: 8F05 leaves 1 - 3 = 254 mod 256, 8F07 leaves
  3 - 0 = 3, 8F06 and 8F0E leave 0. Only 8F04, which takes the sum first, leaves its
  result 13. The run of the program \<open>6F0A\<close>, \<open>6003\<close>, \<open>8F05\<close> ends with VF = 254, and \<open>_b8\<close>
  of src/chip8.c leaves the same five values.
\<close>

theorem flag_destination_reads_stored_flag:
  "get_V alu_state_10_3 0xF = 10 \<and> get_V alu_state_10_3 0 = 3
   \<and> get_V alu_state_10_3 0xF - get_V alu_state_10_3 0 = 7
   \<and> get_V (snd (instr_SUB_Vx_Vy 0x8F05 alu_state_10_3)) 0xF = 254
   \<and> get_V alu_state_10_3 0 - get_V alu_state_10_3 0xF = 249
   \<and> get_V (snd (instr_SUBN_Vx_Vy 0x8F07 alu_state_10_3)) 0xF = 3
   \<and> drop_bit 1 (get_V alu_state_10_3 0xF) = 5
   \<and> get_V (snd (instr_SHR_Vx__Vy 0x8F06 alu_state_10_3)) 0xF = 0
   \<and> push_bit 1 (get_V alu_state_10_3 0xF) = 20
   \<and> get_V (snd (instr_SHL_Vx_Vy 0x8F0E alu_state_10_3)) 0xF = 0
   \<and> get_V (snd (instr_ADD_Vx_Vy 0x8F04 alu_state_10_3)) 0xF = 13
   \<and> flag_and_V0 (run_cycles [0, 0, 0] sub_flag_dest_demo)
       = Inr ([EML_OK, EML_OK, EML_OK], 254, 3)
   \<and> get_V (snd (b8 (alu_state_10_3\<lparr>opcode := 0x8F05\<rparr>))) 0xF = 254
   \<and> get_V (snd (b8 (alu_state_10_3\<lparr>opcode := 0x8F07\<rparr>))) 0xF = 3
   \<and> get_V (snd (b8 (alu_state_10_3\<lparr>opcode := 0x8F06\<rparr>))) 0xF = 0
   \<and> get_V (snd (b8 (alu_state_10_3\<lparr>opcode := 0x8F0E\<rparr>))) 0xF = 0
   \<and> get_V (snd (b8 (alu_state_10_3\<lparr>opcode := 0x8F04\<rparr>))) 0xF = 13"
proof -
  have regs: "get_V alu_state_10_3 0xF = 10 \<and> get_V alu_state_10_3 0 = 3
      \<and> get_V alu_state_10_3 0xF - get_V alu_state_10_3 0 = 7
      \<and> get_V alu_state_10_3 0 - get_V alu_state_10_3 0xF = 249
      \<and> drop_bit 1 (get_V alu_state_10_3 0xF) = 5
      \<and> push_bit 1 (get_V alu_state_10_3 0xF) = 20"
    by (simp add: alu_state_10_3_def get_set_V)
  have handlers: "get_V (snd (instr_SUB_Vx_Vy 0x8F05 alu_state_10_3)) 0xF = 254
      \<and> get_V (snd (instr_SUBN_Vx_Vy 0x8F07 alu_state_10_3)) 0xF = 3
      \<and> get_V (snd (instr_SHR_Vx__Vy 0x8F06 alu_state_10_3)) 0xF = 0
      \<and> get_V (snd (instr_SHL_Vx_Vy 0x8F0E alu_state_10_3)) 0xF = 0
      \<and> get_V (snd (instr_ADD_Vx_Vy 0x8F04 alu_state_10_3)) 0xF = 13"
    by (simp add: instr_SUB_Vx_Vy_def instr_SUBN_Vx_Vy_def instr_SHR_Vx__Vy_def
        instr_SHL_Vx_Vy_def instr_ADD_Vx_Vy_def Let_def alu_state_10_3_def get_set_V
        op_x_def op_y_def)
  have run: "flag_and_V0 (run_cycles [0, 0, 0] sub_flag_dest_demo)
       = Inr ([EML_OK, EML_OK, EML_OK], 254, 3)"
    by (simp add: flag_and_V0_def sub_flag_dest_demo_def boot_def emulator_load_program_def
        emulator_init_def emulator_cycle_def fetch_def dispatch_def MEM_SIZE_def
        RESERVED_MEM_def C8K_NONE_def Let_def then_do_def set_V_def get_V_def
        op_x_def op_y_def op_kk_def instr_LD_Vx_kk_def instr_SUB_Vx_Vy_def)
  have single: "get_V (snd (b8 (alu_state_10_3\<lparr>opcode := 0x8F05\<rparr>))) 0xF = 254
      \<and> get_V (snd (b8 (alu_state_10_3\<lparr>opcode := 0x8F07\<rparr>))) 0xF = 3
      \<and> get_V (snd (b8 (alu_state_10_3\<lparr>opcode := 0x8F06\<rparr>))) 0xF = 0
      \<and> get_V (snd (b8 (alu_state_10_3\<lparr>opcode := 0x8F0E\<rparr>))) 0xF = 0
      \<and> get_V (snd (b8 (alu_state_10_3\<lparr>opcode := 0x8F04\<rparr>))) 0xF = 13"
    by (simp add: b8_def Let_def alu_state_10_3_def get_V_def set_V_def op_x_def op_y_def)
  from regs handlers run single show ?thesis by (intro conjI) simp_all
qed

section \<open>Status and frame of the dispatch\<close>

lemmas pure_handler_defs =
  instr_CLS_def instr_JP_nnn_def instr_SE_Vx_kk_def instr_SNE_Vx_kk_def instr_SE_Vx_Vy_def
  instr_LD_Vx_kk_def instr_ADD_Vx_kk_def instr_LD_Vx_Vy_def instr_OR_Vx_Vy_def
  instr_AND_Vx_Vy_def instr_XOR_Vx_Vy_def instr_ADD_Vx_Vy_def instr_SUB_Vx_Vy_def
  instr_SHR_Vx__Vy_def instr_SUBN_Vx_Vy_def instr_SHL_Vx_Vy_def instr_SNE_Vx_Vy_def
  instr_LD_I_nnn_def instr_JP_V0_nnn_def instr_RND_Vx_kk_def instr_LD_Vx_DT_def
  instr_LD_Vx_K_def instr_LD_DT_Vx_def instr_LD_ST_Vx_def instr_ADD_I_Vx_def
  instr_LD_F_Vx_def

lemmas faulting_handler_defs =
  instr_RET_def instr_CALL_nnn_def instr_DRW_Vx_Vy_n_def instr_SKP_Vx_def instr_SKNP_Vx_def
  instr_LD_B_Vx_def instr_LD_I_Vx_multi_def instr_LD_Vx_I_multi_def

lemma then_do_Inr:
  "then_do m f = Inr r \<longleftrightarrow> (\<exists>x. m = Inr x \<and> f x = Inr r)"
  by (cases m) (simp_all add: then_do_def)

lemma dispatch_F_status:
  "dispatch_F opc e = Inr (st, e') \<Longrightarrow> st = EML_OK \<or> (st = EML_UNK_OPC \<and> e' = e)"
  by (auto simp add: dispatch_F_def pure_handler_defs faulting_handler_defs Let_def then_do_Inr
      split: if_splits)

lemma dispatch_status:
  "dispatch rnd opc e = Inr (st, e') \<Longrightarrow>
     st = EML_OK \<or> st = EML_REDRAW
     \<or> (st \<in> {EML_UNK_OPC, EML_STACK_OVERFL, EML_STACK_UNDERFL} \<and> e' = e)"
  by (auto simp add: dispatch_def pure_handler_defs faulting_handler_defs Let_def then_do_Inr
      split: if_splits dest: dispatch_F_status)

lemma dispatch_F_frame:
  "dispatch_F opc e = Inr (st, e') \<Longrightarrow>
     prev_PC e' = prev_PC e \<and> brk_point e' = brk_point e \<and> brk_point_set e' = brk_point_set e
     \<and> opcode e' = opcode e"
  by (auto simp add: dispatch_F_def pure_handler_defs faulting_handler_defs Let_def then_do_Inr
      set_V_def skip_def split: if_splits)

lemma dispatch_frame:
  "dispatch rnd opc e = Inr (st, e') \<Longrightarrow>
     prev_PC e' = prev_PC e \<and> brk_point e' = brk_point e \<and> brk_point_set e' = brk_point_set e
     \<and> opcode e' = opcode e"
  by (auto simp add: dispatch_def pure_handler_defs faulting_handler_defs Let_def then_do_Inr
      set_V_def skip_def split: if_splits dest: dispatch_F_frame)

lemma pure_handlers_brk:
  "instr_CLS opc (e\<lparr>brk_point_set := b\<rparr>) = apsnd (brk_point_set_update (\<lambda>_. b)) (instr_CLS opc e)"
  "instr_JP_nnn opc (e\<lparr>brk_point_set := b\<rparr>) = apsnd (brk_point_set_update (\<lambda>_. b)) (instr_JP_nnn opc e)"
  "instr_SE_Vx_kk opc (e\<lparr>brk_point_set := b\<rparr>) = apsnd (brk_point_set_update (\<lambda>_. b)) (instr_SE_Vx_kk opc e)"
  "instr_SNE_Vx_kk opc (e\<lparr>brk_point_set := b\<rparr>) = apsnd (brk_point_set_update (\<lambda>_. b)) (instr_SNE_Vx_kk opc e)"
  "instr_SE_Vx_Vy opc (e\<lparr>brk_point_set := b\<rparr>) = apsnd (brk_point_set_update (\<lambda>_. b)) (instr_SE_Vx_Vy opc e)"
  "instr_LD_Vx_kk opc (e\<lparr>brk_point_set := b\<rparr>) = apsnd (brk_point_set_update (\<lambda>_. b)) (instr_LD_Vx_kk opc e)"
  "instr_ADD_Vx_kk opc (e\<lparr>brk_point_set := b\<rparr>) = apsnd (brk_point_set_update (\<lambda>_. b)) (instr_ADD_Vx_kk opc e)"
  "instr_LD_Vx_Vy opc (e\<lparr>brk_point_set := b\<rparr>) = apsnd (brk_point_set_update (\<lambda>_. b)) (instr_LD_Vx_Vy opc e)"
  "instr_OR_Vx_Vy opc (e\<lparr>brk_point_set := b\<rparr>) = apsnd (brk_point_set_update (\<lambda>_. b)) (instr_OR_Vx_Vy opc e)"
  "instr_AND_Vx_Vy opc (e\<lparr>brk_point_set := b\<rparr>) = apsnd (brk_point_set_update (\<lambda>_. b)) (instr_AND_Vx_Vy opc e)"
  "instr_XOR_Vx_Vy opc (e\<lparr>brk_point_set := b\<rparr>) = apsnd (brk_point_set_update (\<lambda>_. b)) (instr_XOR_Vx_Vy opc e)"
  "instr_ADD_Vx_Vy opc (e\<lparr>brk_point_set := b\<rparr>) = apsnd (brk_point_set_update (\<lambda>_. b)) (instr_ADD_Vx_Vy opc e)"
  "instr_SUB_Vx_Vy opc (e\<lparr>brk_point_set := b\<rparr>) = apsnd (brk_point_set_update (\<lambda>_. b)) (instr_SUB_Vx_Vy opc e)"
  "instr_SHR_Vx__Vy opc (e\<lparr>brk_point_set := b\<rparr>) = apsnd (brk_point_set_update (\<lambda>_. b)) (instr_SHR_Vx__Vy opc e)"
  "instr_SUBN_Vx_Vy opc (e\<lparr>brk_point_set := b\<rparr>) = apsnd (brk_point_set_update (\<lambda>_. b)) (instr_SUBN_Vx_Vy opc e)"
  "instr_SHL_Vx_Vy opc (e\<lparr>brk_point_set := b\<rparr>) = apsnd (brk_point_set_update (\<lambda>_. b)) (instr_SHL_Vx_Vy opc e)"
  "instr_SNE_Vx_Vy opc (e\<lparr>brk_point_set := b\<rparr>) = apsnd (brk_point_set_update (\<lambda>_. b)) (instr_SNE_Vx_Vy opc e)"
  "instr_LD_I_nnn opc (e\<lparr>brk_point_set := b\<rparr>) = apsnd (brk_point_set_update (\<lambda>_. b)) (instr_LD_I_nnn opc e)"
  "instr_JP_V0_nnn opc (e\<lparr>brk_point_set := b\<rparr>) = apsnd (brk_point_set_update (\<lambda>_. b)) (instr_JP_V0_nnn opc e)"
  "instr_RND_Vx_kk rnd opc (e\<lparr>brk_point_set := b\<rparr>) = apsnd (brk_point_set_update (\<lambda>_. b)) (instr_RND_Vx_kk rnd opc e)"
  "instr_LD_Vx_DT opc (e\<lparr>brk_point_set := b\<rparr>) = apsnd (brk_point_set_update (\<lambda>_. b)) (instr_LD_Vx_DT opc e)"
  "instr_LD_Vx_K opc (e\<lparr>brk_point_set := b\<rparr>) = apsnd (brk_point_set_update (\<lambda>_. b)) (instr_LD_Vx_K opc e)"
  "instr_LD_DT_Vx opc (e\<lparr>brk_point_set := b\<rparr>) = apsnd (brk_point_set_update (\<lambda>_. b)) (instr_LD_DT_Vx opc e)"
  "instr_LD_ST_Vx opc (e\<lparr>brk_point_set := b\<rparr>) = apsnd (brk_point_set_update (\<lambda>_. b)) (instr_LD_ST_Vx opc e)"
  "instr_ADD_I_Vx opc (e\<lparr>brk_point_set := b\<rparr>) = apsnd (brk_point_set_update (\<lambda>_. b)) (instr_ADD_I_Vx opc e)"
  "instr_LD_F_Vx opc (e\<lparr>brk_point_set := b\<rparr>) = apsnd (brk_point_set_update (\<lambda>_. b)) (instr_LD_F_Vx opc e)"
  by (simp_all add: pure_handler_defs Let_def set_V_def get_V_def skip_def cong: if_cong)

lemma faulting_handlers_brk:
  "instr_RET opc (e\<lparr>brk_point_set := b\<rparr>)
     = map_sum id (apsnd (brk_point_set_update (\<lambda>_. b))) (instr_RET opc e)"
  "instr_CALL_nnn opc (e\<lparr>brk_point_set := b\<rparr>)
     = map_sum id (apsnd (brk_point_set_update (\<lambda>_. b))) (instr_CALL_nnn opc e)"
  "instr_DRW_Vx_Vy_n opc (e\<lparr>brk_point_set := b\<rparr>)
     = map_sum id (apsnd (brk_point_set_update (\<lambda>_. b))) (instr_DRW_Vx_Vy_n opc e)"
  "instr_SKP_Vx opc (e\<lparr>brk_point_set := b\<rparr>)
     = map_sum id (apsnd (brk_point_set_update (\<lambda>_. b))) (instr_SKP_Vx opc e)"
  "instr_SKNP_Vx opc (e\<lparr>brk_point_set := b\<rparr>)
     = map_sum id (apsnd (brk_point_set_update (\<lambda>_. b))) (instr_SKNP_Vx opc e)"
  "instr_LD_B_Vx opc (e\<lparr>brk_point_set := b\<rparr>)
     = map_sum id (apsnd (brk_point_set_update (\<lambda>_. b))) (instr_LD_B_Vx opc e)"
  "instr_LD_I_Vx_multi opc (e\<lparr>brk_point_set := b\<rparr>)
     = map_sum id (apsnd (brk_point_set_update (\<lambda>_. b))) (instr_LD_I_Vx_multi opc e)"
  "instr_LD_Vx_I_multi opc (e\<lparr>brk_point_set := b\<rparr>)
     = map_sum id (apsnd (brk_point_set_update (\<lambda>_. b))) (instr_LD_Vx_I_multi opc e)"
  by (simp_all add: faulting_handler_defs Let_def then_do_def keypad_is_pressed_def
      set_V_def get_V_def skip_def split: sum.splits)

lemma dispatch_F_brk:
  "dispatch_F opc (e\<lparr>brk_point_set := b\<rparr>)
     = map_sum id (apsnd (brk_point_set_update (\<lambda>_. b))) (dispatch_F opc e)"
  by (simp add: dispatch_F_def Let_def pure_handlers_brk faulting_handlers_brk)

lemma dispatch_brk:
  "dispatch rnd opc (e\<lparr>brk_point_set := b\<rparr>)
     = map_sum id (apsnd (brk_point_set_update (\<lambda>_. b))) (dispatch rnd opc e)"
  by (simp add: dispatch_def Let_def pure_handlers_brk faulting_handlers_brk dispatch_F_brk)

text \<open>The definitions that a run on a concrete state unfolds.\<close>

lemmas eval_defs = boot_def emulator_load_program_def emulator_init_def emulator_cycle_def
  fetch_def dispatch_def dispatch_F_def MEM_SIZE_def RESERVED_MEM_def STACK_SIZE_def
  C8K_NONE_def Let_def then_do_def mem_read_def mem_write_def set_V_def get_V_def skip_def
  op_x_def op_y_def op_kk_def op_nnn_def

section \<open>Faults leave the advanced program counter\<close>

text \<open>
  C8. When \<open>emulator_cycle\<close> returns one of the execution faults raised by a handler
  (unknown opcode, stack overflow, stack underflow), the machine state is the state before
  the cycle with PC advanced by 2 and nothing else changed: PC is the faulting address
  plus 2, never the faulting address, which is kept in \<open>prev_PC\<close>.
\<close>

theorem fault_leaves_advanced_pc:
  assumes "emulator_cycle rnd eml = Inr (st, eml')"
    and "st \<in> {EML_UNK_OPC, EML_STACK_OVERFL, EML_STACK_UNDERFL}"
  shows "cpu eml' = (cpu eml)\<lparr>PC := PC (cpu eml) + 2\<rparr>
         \<and> unat (PC (cpu eml')) = unat (PC (cpu eml)) + 2
         \<and> PC (cpu eml') \<noteq> PC (cpu eml)
         \<and> prev_PC eml' = PC (cpu eml)"
proof -
  from assms have run: "\<not> key_waiting eml" "unat (PC (cpu eml)) + 1 < MEM_SIZE"
    by (auto simp add: emulator_cycle_def split: if_splits)
  define e3 where "e3 = eml\<lparr>opcode := fetch (cpu eml), prev_PC := PC (cpu eml),
    cpu := (cpu eml)\<lparr>PC := PC (cpu eml) + 2\<rparr>\<rparr>"
  from assms run obtain st0 where d: "dispatch rnd (fetch (cpu eml)) e3 = Inr (st0, eml')"
    and st: "st = st0 \<or> st = EML_BRK_REACHED"
    by (auto simp add: emulator_cycle_def Let_def then_do_Inr e3_def split: if_splits)
  from st assms(2) have "st0 = st" by auto
  with dispatch_status [OF d] assms(2) have "eml' = e3" by auto
  moreover have "unat (PC (cpu eml) + 2) = unat (PC (cpu eml)) + 2"
    using run(2) by (simp add: unat_word_ariths MEM_SIZE_def)
  ultimately show ?thesis by (auto simp add: e3_def word_unat_eq_iff)
qed

text \<open>The theorem on \<open>00EE\<close> with the empty stack.\<close>

theorem fault_leaves_advanced_pc_witness:
  "emulator_cycle 0 ret_demo = Inr (EML_STACK_UNDERFL, ret_demo_after)
   \<and> cpu ret_demo_after = (cpu ret_demo)\<lparr>PC := 0x202\<rparr>
   \<and> PC (cpu ret_demo) = 0x200
   \<and> prev_PC ret_demo_after = 0x200"
proof -
  have run: "emulator_cycle 0 ret_demo = Inr (EML_STACK_UNDERFL, ret_demo_after)"
    by (simp add: ret_demo_def ret_demo_after_def eval_defs instr_RET_def)
  have pc: "PC (cpu ret_demo) = 0x200"
    by (simp add: ret_demo_def eval_defs)
  show ?thesis
    using fault_leaves_advanced_pc [OF run] run pc by simp
qed

section \<open>Breakpoints\<close>

text \<open>
  C4. Let a breakpoint be configured, and let the cycle run (no key wait, PC + 1 inside
  memory). Take the status \<open>st0\<close> and the state \<open>eml0\<close> that the same cycle gives with the
  breakpoint switched off. With the breakpoint, \<open>emulator_cycle\<close> returns
  \<open>EML_BRK_REACHED\<close> exactly when the breakpoint address equals the PC before the advance
  (the address of the instruction just executed), and the state is \<open>eml0\<close>, the state of
  the fully executed instruction, with only the breakpoint flag as configured.
\<close>

theorem breakpoint_after_retire:
  assumes nk: "\<not> key_waiting eml" and pc: "unat (PC (cpu eml)) + 1 < MEM_SIZE"
    and bs: "brk_point_set eml"
    and run: "emulator_cycle rnd (eml\<lparr>brk_point_set := False\<rparr>) = Inr (st0, eml0)"
  shows "emulator_cycle rnd eml =
           Inr (if sint (brk_point eml) = uint (PC (cpu eml)) then EML_BRK_REACHED else st0,
                eml0\<lparr>brk_point_set := True\<rparr>)
         \<and> st0 \<noteq> EML_BRK_REACHED"
proof -
  define e3 where "e3 = eml\<lparr>opcode := fetch (cpu eml), prev_PC := PC (cpu eml),
    cpu := (cpu eml)\<lparr>PC := PC (cpu eml) + 2\<rparr>\<rparr>"
  have e3f: "eml\<lparr>brk_point_set := False, opcode := fetch (cpu eml), prev_PC := PC (cpu eml),
      cpu := (cpu eml)\<lparr>PC := PC (cpu eml) + 2\<rparr>\<rparr> = e3\<lparr>brk_point_set := False\<rparr>"
    unfolding e3_def by (cases eml) simp
  have td: "then_do (dispatch rnd (fetch (cpu eml)) (e3\<lparr>brk_point_set := False\<rparr>))
      (\<lambda>r. if brk_point_set (snd r) \<and> uint (prev_PC (snd r)) = sint (brk_point (snd r))
           then Inr (EML_BRK_REACHED, snd r) else Inr r) = Inr (st0, eml0)"
    using run nk pc by (simp add: emulator_cycle_def Let_def e3f)
  from td [unfolded then_do_Inr] obtain r where
    d0r0: "dispatch rnd (fetch (cpu eml)) (e3\<lparr>brk_point_set := False\<rparr>) = Inr r
      \<and> (if brk_point_set (snd r) \<and> uint (prev_PC (snd r)) = sint (brk_point (snd r))
              then Inr (EML_BRK_REACHED, snd r) else Inr r)
          = (Inr (st0, eml0) :: ub + eml_stat \<times> emulator)" ..
  note d0 = d0r0 [THEN conjunct1] and r0 = d0r0 [THEN conjunct2]
  from dispatch_frame [of rnd _ _ "fst r" "snd r"] d0
  have "brk_point_set (snd r) = False" by simp
  with r0 have r: "r = (st0, eml0)" by simp
  from d0 [unfolded dispatch_brk r] obtain e' where
    d: "dispatch rnd (fetch (cpu eml)) e3 = Inr (st0, e')"
    and e0: "eml0 = e'\<lparr>brk_point_set := False\<rparr>"
    by (cases "dispatch rnd (fetch (cpu eml)) e3") auto
  from dispatch_frame [OF d] bs
  have fr: "prev_PC e' = PC (cpu eml)" "brk_point e' = brk_point eml" "brk_point_set e'"
    by (simp_all add: e3_def)
  then have e': "eml0\<lparr>brk_point_set := True\<rparr> = e'" by (simp add: e0)
  from dispatch_status [OF d] have st0: "st0 \<noteq> EML_BRK_REACHED" by auto
  have "emulator_cycle rnd eml =
    Inr (if sint (brk_point eml) = uint (PC (cpu eml)) then EML_BRK_REACHED else st0, e')"
    using nk pc d fr
    by (auto simp add: emulator_cycle_def Let_def then_do_def e3_def [symmetric])
  with e' st0 show ?thesis by simp
qed

text \<open>The theorem on \<open>612A\<close> at 0x200 with the breakpoint at 0x200.\<close>

theorem breakpoint_after_retire_witness:
  "\<not> key_waiting brk_demo \<and> unat (PC (cpu brk_demo)) + 1 < MEM_SIZE \<and> brk_point_set brk_demo
   \<and> emulator_cycle 0 (brk_demo\<lparr>brk_point_set := False\<rparr>) = Inr (EML_OK, brk_demo_after)
   \<and> emulator_cycle 0 brk_demo = Inr (EML_BRK_REACHED, brk_demo_after\<lparr>brk_point_set := True\<rparr>)"
proof -
  have nk: "\<not> key_waiting brk_demo" by (simp add: brk_demo_def eval_defs)
  have pc: "unat (PC (cpu brk_demo)) + 1 < MEM_SIZE" by (simp add: brk_demo_def eval_defs)
  have bs: "brk_point_set brk_demo" by (simp add: brk_demo_def)
  have run: "emulator_cycle 0 (brk_demo\<lparr>brk_point_set := False\<rparr>) = Inr (EML_OK, brk_demo_after)"
    by (simp add: brk_demo_def brk_demo_after_def eval_defs instr_LD_Vx_kk_def)
  have at: "sint (brk_point brk_demo) = uint (PC (cpu brk_demo))"
    by (simp add: brk_demo_def eval_defs)
  show ?thesis
    using breakpoint_after_retire [OF nk pc bs run] nk pc bs run at by simp
qed

section \<open>Opcodes without an instruction pattern\<close>

text \<open>
  Where the inner switches of the families 0, 8 and E match nothing, the next case label
  is executed; the status \<open>EML_UNK_OPC\<close> can only come out of the switch of family F.
\<close>

lemma dispatch_falls_through:
  "drop_bit 12 (opc AND 0xF000) = 0x0 \<Longrightarrow> opc AND 0xFF \<noteq> 0xE0 \<Longrightarrow> opc AND 0xFF \<noteq> 0xEE
     \<Longrightarrow> dispatch rnd opc e = Inr (instr_JP_nnn opc e)"
  "drop_bit 12 (opc AND 0xF000) = 0x8 \<Longrightarrow> opc AND 0xF \<notin> {0x0, 0x1, 0x2, 0x3, 0x4, 0x5, 0x6, 0x7, 0xE}
     \<Longrightarrow> dispatch rnd opc e = Inr (instr_SNE_Vx_Vy opc e)"
  "drop_bit 12 (opc AND 0xF000) = 0xE \<Longrightarrow> opc AND 0xFF \<noteq> 0x9E \<Longrightarrow> opc AND 0xFF \<noteq> 0xA1
     \<Longrightarrow> dispatch rnd opc e = dispatch_F opc e"
  by (simp_all add: dispatch_def)

lemma unknown_status_only_from_F_switch:
  "dispatch rnd opc e = Inr (EML_UNK_OPC, e') \<Longrightarrow> dispatch_F opc e = Inr (EML_UNK_OPC, e')"
  by (auto simp add: dispatch_def pure_handler_defs faulting_handler_defs Let_def then_do_Inr
      split: if_splits)

text \<open>
  C2 (the code at the failing inputs). The inner switches of the families 0, 8 and E fall
  through: \<open>0123\<close> is executed as JP 0x123, \<open>8128\<close> as SNE V1, V2 (the next instruction is
  skipped), \<open>E107\<close> as LD V1, DT. Each cycle returns \<open>EML_OK\<close>, not \<open>EML_UNK_OPC\<close>.
\<close>

theorem unknown_opcode_falls_through:
  "emulator_cycle 0 unk0_demo = Inr (EML_OK, unk0_after)
   \<and> emulator_cycle 0 unk8_demo = Inr (EML_OK, unk8_after)
   \<and> emulator_cycle 0 unkE_demo = Inr (EML_OK, unkE_after)"
  by (simp add: unk0_demo_def unk0_after_def unk8_demo_def unk8_after_def
      unkE_demo_def unkE_after_def eval_defs instr_JP_nnn_def instr_SNE_Vx_Vy_def
      instr_LD_Vx_DT_def)

section \<open>The key wait\<close>

text \<open>
  The first cycle on Fx0A without a latched key advances PC and starts the wait; a cycle
  during the wait changes nothing; the key press ends the wait and leaves PC and the
  registers as they are.
\<close>

lemma key_wait_first_cycle:
  assumes "\<not> key_waiting e" and "\<not> brk_point_set e"
    and "unat (PC (cpu e)) + 1 < MEM_SIZE"
    and "drop_bit 12 (fetch (cpu e) AND 0xF000) = 0xF" and "fetch (cpu e) AND 0xFF = 0x0A"
    and "last_key e = C8K_NONE"
  shows "emulator_cycle rnd e =
           Inr (EML_OK, e\<lparr>opcode := fetch (cpu e), prev_PC := PC (cpu e),
                          cpu := (cpu e)\<lparr>PC := PC (cpu e) + 2\<rparr>, key_waiting := True\<rparr>)"
  using assms
  by (simp add: emulator_cycle_def dispatch_def dispatch_F_def instr_LD_Vx_K_def Let_def
      then_do_def)

lemma key_wait_idle_cycle: "key_waiting e \<Longrightarrow> emulator_cycle rnd e = Inr (EML_OK, e)"
  by (simp add: emulator_cycle_def)

lemma key_press_keeps_pc:
  "key_waiting e \<Longrightarrow>
     PC (cpu (keypad_pressed e k)) = PC (cpu e) \<and> \<not> key_waiting (keypad_pressed e k)
     \<and> last_key (keypad_pressed e k) = uint k \<and> V (cpu (keypad_pressed e k)) = V (cpu e)"
  by (simp add: keypad_pressed_def Let_def)

text \<open>
  C1 (the code at the failing input). The first cycle on \<open>F00A\<close> with no key latched
  already advances PC from 0x200 to 0x202 and sets \<open>key_waiting\<close>; the cycles during the
  wait change nothing; after key 7 is pressed, the next cycle executes the instruction at
  0x202: V0 is still 0, the latch still holds 7, and PC is 0x204.
\<close>

theorem key_wait_skips_instruction:
  "emulator_cycle 0 key_demo = Inr (EML_OK, key_demo_waiting)
   \<and> PC (cpu key_demo) = 0x200 \<and> PC (cpu key_demo_waiting) = 0x202
   \<and> emulator_cycle 0 key_demo_waiting = Inr (EML_OK, key_demo_waiting)
   \<and> emulator_cycle 0 (keypad_pressed key_demo_waiting 7) = Inr (EML_OK, key_demo_after)
   \<and> get_V key_demo_after 0 = 0 \<and> get_V key_demo_after 1 = 0x2A
   \<and> last_key key_demo_after = 7 \<and> PC (cpu key_demo_after) = 0x204"
  by (simp add: key_demo_def key_demo_waiting_def key_demo_after_def keypad_pressed_def
       eval_defs instr_LD_Vx_K_def instr_LD_Vx_kk_def)

section \<open>Memory writes through the address register\<close>

text \<open>
  C3 (the code at the failing inputs). \<open>AFFE\<close>, \<open>F033\<close> stores the third BCD digit at
  address 4096; \<open>AFFF\<close>, \<open>F155\<close> stores V1 at address 4096; after \<open>60FF\<close>, \<open>AFFF\<close>, \<open>F01E\<close>
  the address register is 0x10FE and \<open>F033\<close> stores at address 4350.
\<close>

theorem memory_write_out_of_bounds:
  "run_cycles [0, 0] (boot [0xAF, 0xFE, 0xF0, 0x33]) = Inl (Mem_Write_OOB 4096)
   \<and> run_cycles [0, 0] (boot [0xAF, 0xFF, 0xF1, 0x55]) = Inl (Mem_Write_OOB 4096)
   \<and> run_cycles [0, 0, 0, 0] (boot [0x60, 0xFF, 0xAF, 0xFF, 0xF0, 0x1E, 0xF0, 0x33])
       = Inl (Mem_Write_OOB 4350)"
  by (simp add: eval_defs instr_LD_I_nnn_def instr_LD_B_Vx_def instr_LD_I_Vx_multi_def
      instr_LD_Vx_kk_def instr_ADD_I_Vx_def)

section \<open>Register dump and load\<close>

lemma store_regs_result:
  "\<forall>i\<in>set rs. unat (I c) + i < MEM_SIZE \<Longrightarrow>
   store_regs rs c =
     Inr (c\<lparr>memory := (\<lambda>a. if \<exists>i\<in>set rs. a = unat (I c) + i
                               then V c (a - unat (I c)) else memory c a)\<rparr>)"
proof (induction rs arbitrary: c)
  case Nil
  then show ?case by simp
next
  case (Cons i rs)
  define c1 where "c1 = c\<lparr>memory := (memory c)(unat (I c) + i := V c i)\<rparr>"
  have w: "mem_write (unat (I c) + i) (V c i) c = Inr c1"
    using Cons.prems by (simp add: mem_write_def c1_def)
  have "\<forall>k\<in>set rs. unat (I c1) + k < MEM_SIZE"
    using Cons.prems by (simp add: c1_def)
  from Cons.IH [OF this]
  have "store_regs rs c1 =
     Inr (c1\<lparr>memory := (\<lambda>a. if \<exists>k\<in>set rs. a = unat (I c1) + k
                               then V c1 (a - unat (I c1)) else memory c1 a)\<rparr>)" .
  moreover have "c1\<lparr>memory := (\<lambda>a. if \<exists>k\<in>set rs. a = unat (I c1) + k
                               then V c1 (a - unat (I c1)) else memory c1 a)\<rparr>
    = c\<lparr>memory := (\<lambda>a. if \<exists>k\<in>set (i # rs). a = unat (I c) + k
                               then V c (a - unat (I c)) else memory c a)\<rparr>"
    by (auto simp add: c1_def fun_eq_iff)
  ultimately show ?case
    by (simp add: w then_do_def)
qed

lemma load_regs_result:
  "\<forall>i\<in>set rs. unat (I c) + i < MEM_SIZE \<Longrightarrow>
   load_regs rs c =
     Inr (c\<lparr>V := (\<lambda>i. if i \<in> set rs then memory c (unat (I c) + i) else V c i)\<rparr>)"
proof (induction rs arbitrary: c)
  case Nil
  then show ?case by simp
next
  case (Cons i rs)
  define c1 where "c1 = c\<lparr>V := (V c)(i := memory c (unat (I c) + i))\<rparr>"
  have r: "mem_read c (unat (I c) + i) = Inr (memory c (unat (I c) + i))"
    using Cons.prems by (simp add: mem_read_def)
  have "\<forall>k\<in>set rs. unat (I c1) + k < MEM_SIZE"
    using Cons.prems by (simp add: c1_def)
  from Cons.IH [OF this]
  have "load_regs rs c1 =
     Inr (c1\<lparr>V := (\<lambda>k. if k \<in> set rs then memory c1 (unat (I c1) + k) else V c1 k)\<rparr>)" .
  moreover have "c1\<lparr>V := (\<lambda>k. if k \<in> set rs then memory c1 (unat (I c1) + k) else V c1 k)\<rparr>
    = c\<lparr>V := (\<lambda>k. if k \<in> set (i # rs) then memory c (unat (I c) + k) else V c k)\<rparr>"
    by (auto simp add: c1_def fun_eq_iff)
  ultimately show ?case
    by (simp add: r then_do_def c1_def)
qed

text \<open>
  C9 (as amended). When the addresses I .. I+x are inside memory, Fx55 stores V[0..x] at
  memory[I..I+x] and Fx65 loads memory[I..I+x] into V[0..x], the registers above Vx staying
  as they are. In emulator/chip8.c (\<open>instr_LD_I_Vx_multi\<close>, \<open>instr_LD_Vx_I_multi\<close>) nothing
  else changes: the address register I (no increment by x+1), PC, SP, the stack, the
  display and both timers are as before. In src/chip8.c (\<open>_bF\<close>) the address register
  is I + x + 1 afterwards, and nothing else changes.
\<close>

theorem register_dump_and_load_frame:
  assumes "unat (I (cpu eml)) + unat (op_x opc) < MEM_SIZE"
  shows "instr_LD_I_Vx_multi opc eml =
           Inr (EML_OK, eml\<lparr>cpu := (cpu eml)\<lparr>memory :=
             (\<lambda>a. if unat (I (cpu eml)) \<le> a \<and> a \<le> unat (I (cpu eml)) + unat (op_x opc)
                  then V (cpu eml) (a - unat (I (cpu eml))) else memory (cpu eml) a)\<rparr>\<rparr>)
         \<and> instr_LD_Vx_I_multi opc eml =
           Inr (EML_OK, eml\<lparr>cpu := (cpu eml)\<lparr>V :=
             (\<lambda>i. if i \<le> unat (op_x opc) then memory (cpu eml) (unat (I (cpu eml)) + i)
                  else V (cpu eml) i)\<rparr>\<rparr>)
         \<and> (opcode eml = opc \<and> opc AND 0x00FF = 0x55 \<longrightarrow>
             bF eml =
               Inr (EML_OK_s, eml\<lparr>cpu := (cpu eml)\<lparr>memory :=
                 (\<lambda>a. if unat (I (cpu eml)) \<le> a \<and> a \<le> unat (I (cpu eml)) + unat (op_x opc)
                      then V (cpu eml) (a - unat (I (cpu eml))) else memory (cpu eml) a),
                 I := I (cpu eml) + (ucast (op_x opc) + 1)\<rparr>\<rparr>)
             \<and> unat (I (cpu eml) + (ucast (op_x opc) + 1))
                 = unat (I (cpu eml)) + unat (op_x opc) + 1)
         \<and> (opcode eml = opc \<and> opc AND 0x00FF = 0x65 \<longrightarrow>
             bF eml =
               Inr (EML_OK_s, eml\<lparr>cpu := (cpu eml)\<lparr>V :=
                 (\<lambda>i. if i \<le> unat (op_x opc) then memory (cpu eml) (unat (I (cpu eml)) + i)
                      else V (cpu eml) i),
                 I := I (cpu eml) + (ucast (op_x opc) + 1)\<rparr>\<rparr>)
             \<and> unat (I (cpu eml) + (ucast (op_x opc) + 1))
                 = unat (I (cpu eml)) + unat (op_x opc) + 1)"
proof -
  let ?rs = "[0..<Suc (unat (op_x opc))]"
  have b: "\<forall>i\<in>set ?rs. unat (I (cpu eml)) + i < MEM_SIZE"
    using assms by auto
  have ex: "(\<exists>i\<in>set ?rs. a = unat (I (cpu eml)) + i)
      = (unat (I (cpu eml)) \<le> a \<and> a \<le> unat (I (cpu eml)) + unat (op_x opc))" for a
  proof
    assume "\<exists>i\<in>set ?rs. a = unat (I (cpu eml)) + i"
    then show "unat (I (cpu eml)) \<le> a \<and> a \<le> unat (I (cpu eml)) + unat (op_x opc)"
      by auto
  next
    assume "unat (I (cpu eml)) \<le> a \<and> a \<le> unat (I (cpu eml)) + unat (op_x opc)"
    then have "a - unat (I (cpu eml)) \<in> set ?rs"
      and "a = unat (I (cpu eml)) + (a - unat (I (cpu eml)))"
      by auto
    then show "\<exists>i\<in>set ?rs. a = unat (I (cpu eml)) + i" by (rule bexI [rotated])
  qed
  have m: "(\<lambda>a. if \<exists>i\<in>set ?rs. a = unat (I (cpu eml)) + i
                 then V (cpu eml) (a - unat (I (cpu eml))) else memory (cpu eml) a)
       = (\<lambda>a. if unat (I (cpu eml)) \<le> a \<and> a \<le> unat (I (cpu eml)) + unat (op_x opc)
                  then V (cpu eml) (a - unat (I (cpu eml))) else memory (cpu eml) a)"
    unfolding ex ..
  have v: "(\<lambda>i. if i \<in> set ?rs then memory (cpu eml) (unat (I (cpu eml)) + i) else V (cpu eml) i)
       = (\<lambda>i. if i \<le> unat (op_x opc) then memory (cpu eml) (unat (I (cpu eml)) + i)
                  else V (cpu eml) i)"
    by (rule ext) (auto simp add: less_Suc_eq_le)
  have st: "store_regs ?rs (cpu eml) = Inr ((cpu eml)\<lparr>memory :=
       (\<lambda>a. if unat (I (cpu eml)) \<le> a \<and> a \<le> unat (I (cpu eml)) + unat (op_x opc)
            then V (cpu eml) (a - unat (I (cpu eml))) else memory (cpu eml) a)\<rparr>)"
    unfolding store_regs_result [OF b] m ..
  have ld: "load_regs ?rs (cpu eml) = Inr ((cpu eml)\<lparr>V :=
       (\<lambda>i. if i \<le> unat (op_x opc) then memory (cpu eml) (unat (I (cpu eml)) + i)
            else V (cpu eml) i)\<rparr>)"
    unfolding load_regs_result [OF b] v ..
  have inc: "unat (I (cpu eml) + (ucast (op_x opc) + 1))
      = unat (I (cpu eml)) + unat (op_x opc) + 1"
  proof -
    have x0: "unat (ucast (op_x opc) :: 16 word) = unat (op_x opc)"
      by (rule unat_ucast_8_16)
    have "unat (ucast (op_x opc) :: 16 word) + unat (1 :: 16 word) < 2 ^ LENGTH(16)"
      using op_x_lt [of opc] by (simp add: x0)
    then have x1: "unat (ucast (op_x opc) + 1 :: 16 word) = unat (op_x opc) + 1"
      by (simp add: unat_add_lem [THEN iffD1] x0)
    have "unat (I (cpu eml)) + unat (ucast (op_x opc) + 1 :: 16 word) < 2 ^ LENGTH(16)"
      using assms by (simp add: x1 MEM_SIZE_def)
    then have "unat (I (cpu eml) + (ucast (op_x opc) + 1))
        = unat (I (cpu eml)) + unat (ucast (op_x opc) + 1 :: 16 word)"
      by (rule unat_add_lem [THEN iffD1])
    then show ?thesis
      by (simp add: x1)
  qed
  have e1: "instr_LD_I_Vx_multi opc eml =
           Inr (EML_OK, eml\<lparr>cpu := (cpu eml)\<lparr>memory :=
             (\<lambda>a. if unat (I (cpu eml)) \<le> a \<and> a \<le> unat (I (cpu eml)) + unat (op_x opc)
                  then V (cpu eml) (a - unat (I (cpu eml))) else memory (cpu eml) a)\<rparr>\<rparr>)"
    unfolding instr_LD_I_Vx_multi_def st by (simp add: then_do_def)
  have e2: "instr_LD_Vx_I_multi opc eml =
           Inr (EML_OK, eml\<lparr>cpu := (cpu eml)\<lparr>V :=
             (\<lambda>i. if i \<le> unat (op_x opc) then memory (cpu eml) (unat (I (cpu eml)) + i)
                  else V (cpu eml) i)\<rparr>\<rparr>)"
    unfolding instr_LD_Vx_I_multi_def ld by (simp add: then_do_def)
  have s1: "bF eml =
               Inr (EML_OK_s, eml\<lparr>cpu := (cpu eml)\<lparr>memory :=
                 (\<lambda>a. if unat (I (cpu eml)) \<le> a \<and> a \<le> unat (I (cpu eml)) + unat (op_x opc)
                      then V (cpu eml) (a - unat (I (cpu eml))) else memory (cpu eml) a),
                 I := I (cpu eml) + (ucast (op_x opc) + 1)\<rparr>\<rparr>)"
    if "opcode eml = opc \<and> opc AND 0x00FF = 0x55"
    using that st by (simp add: bF_def Let_def then_do_def)
  have s2: "bF eml =
               Inr (EML_OK_s, eml\<lparr>cpu := (cpu eml)\<lparr>V :=
                 (\<lambda>i. if i \<le> unat (op_x opc) then memory (cpu eml) (unat (I (cpu eml)) + i)
                      else V (cpu eml) i),
                 I := I (cpu eml) + (ucast (op_x opc) + 1)\<rparr>\<rparr>)"
    if "opcode eml = opc \<and> opc AND 0x00FF = 0x65"
    using that ld by (simp add: bF_def Let_def then_do_def)
  from e1 e2 s1 s2 inc show ?thesis by blast
qed

text \<open>
  The theorem at F155 and F165 with I = 0, V0 = 7, V1 = 9, V2 = 5: in emulator/chip8.c I
  is 0 afterwards, in src/chip8.c it is 2.
\<close>

theorem register_dump_and_load_frame_witness:
  "unat (I (cpu regs_demo)) + unat (op_x 0xF155) < MEM_SIZE
   \<and> unat (I (cpu regs_demo)) + unat (op_x 0xF165) < MEM_SIZE
   \<and> instr_LD_I_Vx_multi 0xF155 regs_demo = Inr (EML_OK, regs_demo_stored)
   \<and> instr_LD_Vx_I_multi 0xF165 regs_demo = Inr (EML_OK, regs_demo_loaded)
   \<and> I (cpu regs_demo_stored) = I (cpu regs_demo)
   \<and> I (cpu regs_demo_loaded) = I (cpu regs_demo)
   \<and> get_V regs_demo_loaded 2 = 5
   \<and> unat (I (cpu regs_single_F155)) + unat (op_x 0xF155) < MEM_SIZE
   \<and> opcode regs_single_F155 = 0xF155 \<and> (0xF155 :: 16 word) AND 0x00FF = 0x55
   \<and> bF regs_single_F155 = Inr (EML_OK_s, regs_single_F155_after)
   \<and> unat (I (cpu regs_single_F165)) + unat (op_x 0xF165) < MEM_SIZE
   \<and> opcode regs_single_F165 = 0xF165 \<and> (0xF165 :: 16 word) AND 0x00FF = 0x65
   \<and> bF regs_single_F165 = Inr (EML_OK_s, regs_single_F165_after)
   \<and> get_V regs_single_F165_after 2 = 5"
proof -
  have x5: "unat (op_x 0xF155) = 1" and x6: "unat (op_x 0xF165) = 1"
    and u5: "(ucast (op_x 0xF155) + 1 :: 16 word) = 2"
    and u6: "(ucast (op_x 0xF165) + 1 :: 16 word) = 2"
    by (simp_all add: op_x_def)
  have i0: "unat (I (cpu regs_demo)) = 0" and i0w: "I (cpu regs_demo) = 0"
    by (simp_all add: regs_demo_def emulator_init_def set_V_def)
  have c5: "cpu regs_single_F155 = cpu regs_demo" and c6: "cpu regs_single_F165 = cpu regs_demo"
    by (simp_all add: regs_single_F155_def regs_single_F165_def)
  have h5: "unat (I (cpu regs_demo)) + unat (op_x 0xF155) < MEM_SIZE"
    and h6: "unat (I (cpu regs_demo)) + unat (op_x 0xF165) < MEM_SIZE"
    by (simp_all add: x5 x6 i0 MEM_SIZE_def)
  have g5: "unat (I (cpu regs_single_F155)) + unat (op_x 0xF155) < MEM_SIZE"
    and g6: "unat (I (cpu regs_single_F165)) + unat (op_x 0xF165) < MEM_SIZE"
    using h5 h6 by (simp_all add: c5 c6)
  have o5: "opcode regs_single_F155 = 0xF155 \<and> (0xF155 :: 16 word) AND 0x00FF = 0x55"
    and o6: "opcode regs_single_F165 = 0xF165 \<and> (0xF165 :: 16 word) AND 0x00FF = 0x65"
    by (simp_all add: regs_single_F155_def regs_single_F165_def)
  have st: "(\<lambda>a. if unat (I (cpu regs_demo)) \<le> a
                   \<and> a \<le> unat (I (cpu regs_demo)) + unat (op_x 0xF155)
                then V (cpu regs_demo) (a - unat (I (cpu regs_demo)))
                else memory (cpu regs_demo) a)
      = (memory (cpu regs_demo))(0 := 7, 1 := 9)"
    by (auto simp add: fun_eq_iff x5 i0 regs_demo_def emulator_init_def set_V_def le_Suc_eq)
  have ld: "(\<lambda>i. if i \<le> unat (op_x 0xF165)
                then memory (cpu regs_demo) (unat (I (cpu regs_demo)) + i)
                else V (cpu regs_demo) i)
      = (V (cpu regs_demo))(0 := 0xF0, 1 := 0x90)"
    by (auto simp add: fun_eq_iff x6 i0 regs_demo_def emulator_init_def set_V_def le_Suc_eq
        chip8_fontset_def)
  have s5: "instr_LD_I_Vx_multi 0xF155 regs_demo = Inr (EML_OK, regs_demo_stored)"
    unfolding regs_demo_stored_def st [symmetric]
    by (rule register_dump_and_load_frame [OF h5, THEN conjunct1])
  have s6: "instr_LD_Vx_I_multi 0xF165 regs_demo = Inr (EML_OK, regs_demo_loaded)"
    unfolding regs_demo_loaded_def ld [symmetric]
    by (rule register_dump_and_load_frame [OF h6, THEN conjunct2, THEN conjunct1])
  have a5: "regs_single_F155_after =
      regs_single_F155\<lparr>cpu := (cpu regs_single_F155)\<lparr>memory :=
         (\<lambda>a. if unat (I (cpu regs_single_F155)) \<le> a
                 \<and> a \<le> unat (I (cpu regs_single_F155)) + unat (op_x 0xF155)
              then V (cpu regs_single_F155) (a - unat (I (cpu regs_single_F155)))
              else memory (cpu regs_single_F155) a),
         I := I (cpu regs_single_F155) + (ucast (op_x 0xF155) + 1)\<rparr>\<rparr>"
    unfolding regs_single_F155_after_def c5 st u5 by (simp add: i0w)
  have a6: "regs_single_F165_after =
      regs_single_F165\<lparr>cpu := (cpu regs_single_F165)\<lparr>V :=
         (\<lambda>i. if i \<le> unat (op_x 0xF165)
              then memory (cpu regs_single_F165) (unat (I (cpu regs_single_F165)) + i)
              else V (cpu regs_single_F165) i),
         I := I (cpu regs_single_F165) + (ucast (op_x 0xF165) + 1)\<rparr>\<rparr>"
    unfolding regs_single_F165_after_def c6 ld u6 by (simp add: i0w)
  have t5: "bF regs_single_F155 = Inr (EML_OK_s, regs_single_F155_after)"
    unfolding a5
    by (rule register_dump_and_load_frame [OF g5, THEN conjunct2, THEN conjunct2,
          THEN conjunct1, THEN mp, OF o5, THEN conjunct1])
  have t6: "bF regs_single_F165 = Inr (EML_OK_s, regs_single_F165_after)"
    unfolding a6
    by (rule register_dump_and_load_frame [OF g6, THEN conjunct2, THEN conjunct2,
          THEN conjunct2, THEN mp, OF o6, THEN conjunct1])
  have i5: "I (cpu regs_demo_stored) = I (cpu regs_demo)"
    and i6: "I (cpu regs_demo_loaded) = I (cpu regs_demo)"
    by (simp_all add: regs_demo_stored_def regs_demo_loaded_def)
  have v2: "get_V regs_demo_loaded 2 = 5"
    by (simp add: regs_demo_loaded_def regs_demo_def get_V_def set_V_def)
  have w2: "get_V regs_single_F165_after 2 = 5"
    by (simp add: regs_single_F165_after_def regs_single_F165_def regs_demo_def get_V_def
        set_V_def)
  from h5 h6 s5 s6 i5 i6 v2 g5 o5 t5 g6 o6 t6 w2 show ?thesis by (intro conjI) simp_all
qed

text \<open>
  \<open>_bF\<close> of src/chip8.c moves the address register: with I = 0, F155 and F165 leave
  I = 2.
\<close>

theorem register_dump_moves_address_counterexample:
  "I (cpu regs_single_F155) = 0
   \<and> bF regs_single_F155 = Inr (EML_OK_s, regs_single_F155_after)
   \<and> I (cpu regs_single_F155_after) = 2
   \<and> I (cpu regs_single_F165) = 0
   \<and> bF regs_single_F165 = Inr (EML_OK_s, regs_single_F165_after)
   \<and> I (cpu regs_single_F165_after) = 2"
proof -
  have i: "I (cpu regs_single_F155) = 0 \<and> I (cpu regs_single_F155_after) = 2
      \<and> I (cpu regs_single_F165) = 0 \<and> I (cpu regs_single_F165_after) = 2"
    by (simp add: regs_single_F155_def regs_single_F155_after_def regs_single_F165_def
        regs_single_F165_after_def regs_demo_def emulator_init_def set_V_def)
  have s: "bF regs_single_F155 = Inr (EML_OK_s, regs_single_F155_after)"
    by (simp add: bF_def Let_def then_do_def mem_write_def MEM_SIZE_def op_x_def
        regs_single_F155_def regs_single_F155_after_def regs_demo_def emulator_init_def
        set_V_def)
  have l: "bF regs_single_F165 = Inr (EML_OK_s, regs_single_F165_after)"
    by (simp add: bF_def Let_def then_do_def mem_read_def MEM_SIZE_def op_x_def
        regs_single_F165_def regs_single_F165_after_def regs_demo_def emulator_init_def
        set_V_def chip8_fontset_def)
  from i s l show ?thesis by (intro conjI) simp_all
qed

section \<open>Stack discipline\<close>

text \<open>
  The two handlers on their own: a CALL pushes the PC it finds (the address after the
  CALL) unless the stack is full, a RET on the empty stack changes nothing, and a RET
  right after a CALL restores PC and SP.
\<close>

lemma call_ret_handlers:
  "unat (SP (cpu e)) < STACK_SIZE \<Longrightarrow>
     instr_CALL_nnn opc e =
       Inr (EML_OK, e\<lparr>cpu := (cpu e)\<lparr>stack := (stack (cpu e))(unat (SP (cpu e)) := PC (cpu e)),
                                        SP := SP (cpu e) + 1, PC := op_nnn opc\<rparr>\<rparr>)"
  "unat (SP (cpu e)) = STACK_SIZE \<Longrightarrow> instr_CALL_nnn opc e = Inr (EML_STACK_OVERFL, e)"
  "SP (cpu e) = 0 \<Longrightarrow> instr_RET opc e = Inr (EML_STACK_UNDERFL, e)"
  "unat (SP (cpu e)) < STACK_SIZE \<Longrightarrow>
     then_do (instr_CALL_nnn opc e) (\<lambda>r. instr_RET opc' (snd r)) =
       Inr (EML_OK, e\<lparr>cpu := (cpu e)\<lparr>stack := (stack (cpu e))(unat (SP (cpu e)) := PC (cpu e))\<rparr>\<rparr>)"
proof -
  show "unat (SP (cpu e)) < STACK_SIZE \<Longrightarrow>
     instr_CALL_nnn opc e =
       Inr (EML_OK, e\<lparr>cpu := (cpu e)\<lparr>stack := (stack (cpu e))(unat (SP (cpu e)) := PC (cpu e)),
                                        SP := SP (cpu e) + 1, PC := op_nnn opc\<rparr>\<rparr>)"
    by (simp add: instr_CALL_nnn_def Let_def)
  show "unat (SP (cpu e)) = STACK_SIZE \<Longrightarrow> instr_CALL_nnn opc e = Inr (EML_STACK_OVERFL, e)"
    by (simp add: instr_CALL_nnn_def)
  show "SP (cpu e) = 0 \<Longrightarrow> instr_RET opc e = Inr (EML_STACK_UNDERFL, e)"
    by (simp add: instr_RET_def)
  assume sp: "unat (SP (cpu e)) < STACK_SIZE"
  then have "SP (cpu e) + 1 \<noteq> 0"
    by (auto simp add: STACK_SIZE_def word_unat_eq_iff unat_word_ariths)
  with sp show "then_do (instr_CALL_nnn opc e) (\<lambda>r. instr_RET opc' (snd r)) =
       Inr (EML_OK, e\<lparr>cpu := (cpu e)\<lparr>stack := (stack (cpu e))(unat (SP (cpu e)) := PC (cpu e))\<rparr>\<rparr>)"
    by (simp add: instr_CALL_nnn_def instr_RET_def Let_def then_do_def)
qed

lemma fetch_word_at: "fetch c = word_at (memory c) (unat (PC c))"
  by (simp add: fetch_def word_at_def)

lemma call_cycle:
  assumes nk: "\<not> key_waiting e" and nb: "\<not> brk_point_set e"
    and pc: "unat (PC (cpu e)) + 1 < MEM_SIZE"
    and fam: "drop_bit 12 (fetch (cpu e) AND 0xF000) = 0x2"
  shows "emulator_cycle rnd e =
    (if unat (SP (cpu e)) = STACK_SIZE
     then Inr (EML_STACK_OVERFL,
               e\<lparr>opcode := fetch (cpu e), prev_PC := PC (cpu e),
                 cpu := (cpu e)\<lparr>PC := PC (cpu e) + 2\<rparr>\<rparr>)
     else if unat (SP (cpu e)) < STACK_SIZE
     then Inr (EML_OK,
               e\<lparr>opcode := fetch (cpu e), prev_PC := PC (cpu e),
                 cpu := (cpu e)\<lparr>PC := op_nnn (fetch (cpu e)),
                                stack := (stack (cpu e))(unat (SP (cpu e)) := PC (cpu e) + 2),
                                SP := SP (cpu e) + 1\<rparr>\<rparr>)
     else Inl (Stack_OOB (unat (SP (cpu e)))))"
  using nk nb pc fam
  by (simp add: emulator_cycle_def dispatch_def instr_CALL_nnn_def Let_def then_do_def)

lemma ret_cycle:
  assumes nk: "\<not> key_waiting e" and nb: "\<not> brk_point_set e"
    and pc: "unat (PC (cpu e)) + 1 < MEM_SIZE"
    and op: "fetch (cpu e) = 0x00EE"
  shows "emulator_cycle rnd e =
    (if SP (cpu e) = 0
     then Inr (EML_STACK_UNDERFL,
               e\<lparr>opcode := 0x00EE, prev_PC := PC (cpu e),
                 cpu := (cpu e)\<lparr>PC := PC (cpu e) + 2\<rparr>\<rparr>)
     else if unat (SP (cpu e) - 1) < STACK_SIZE
     then Inr (EML_OK,
               e\<lparr>opcode := 0x00EE, prev_PC := PC (cpu e),
                 cpu := (cpu e)\<lparr>PC := stack (cpu e) (unat (SP (cpu e) - 1)),
                                SP := SP (cpu e) - 1\<rparr>\<rparr>)
     else Inl (Stack_OOB (unat (SP (cpu e) - 1))))"
  using nk nb pc op
  by (simp add: emulator_cycle_def dispatch_def instr_RET_def Let_def then_do_def)

lemma nested_calls_run:
  "\<not> key_waiting e \<Longrightarrow> \<not> brk_point_set e \<Longrightarrow> length rs = k
   \<Longrightarrow> unat (SP (cpu e)) + k \<le> STACK_SIZE
   \<Longrightarrow> calls_nested (memory (cpu e)) (PC (cpu e)) (k + m)
   \<Longrightarrow> \<exists>e'. run_cycles rs e = Inr (replicate k EML_OK, e')
          \<and> unat (SP (cpu e')) = unat (SP (cpu e)) + k
          \<and> \<not> key_waiting e' \<and> \<not> brk_point_set e'
          \<and> calls_nested (memory (cpu e')) (PC (cpu e')) m"
proof (induction k arbitrary: e rs)
  case 0
  then show ?case by simp
next
  case (Suc k)
  from Suc.prems(3) obtain r rest where rs: "rs = r # rest" and len: "length rest = k"
    by (cases rs) auto
  from Suc.prems(5) have pc: "unat (PC (cpu e)) + 1 < MEM_SIZE"
    and fam: "drop_bit 12 (fetch (cpu e) AND 0xF000) = 0x2"
    and nest: "calls_nested (memory (cpu e)) (op_nnn (fetch (cpu e))) (k + m)"
    by (simp_all add: fetch_word_at)
  define e1 where "e1 = e\<lparr>opcode := fetch (cpu e), prev_PC := PC (cpu e),
                 cpu := (cpu e)\<lparr>PC := op_nnn (fetch (cpu e)),
                                stack := (stack (cpu e))(unat (SP (cpu e)) := PC (cpu e) + 2),
                                SP := SP (cpu e) + 1\<rparr>\<rparr>"
  from Suc.prems(4) have sp: "unat (SP (cpu e)) < STACK_SIZE" by simp
  have step: "emulator_cycle r e = Inr (EML_OK, e1)"
    using call_cycle [OF Suc.prems(1,2) pc fam, of r] sp by (simp add: e1_def)
  have sp1: "unat (SP (cpu e1)) = unat (SP (cpu e)) + 1"
    using sp by (simp add: e1_def unat_word_ariths STACK_SIZE_def)
  have "\<exists>e'. run_cycles rest e1 = Inr (replicate k EML_OK, e')
          \<and> unat (SP (cpu e')) = unat (SP (cpu e1)) + k
          \<and> \<not> key_waiting e' \<and> \<not> brk_point_set e'
          \<and> calls_nested (memory (cpu e')) (PC (cpu e')) m"
    using Suc.prems(1,2,4) len nest sp1
    by (intro Suc.IH) (simp_all add: e1_def)
  then obtain e' where r: "run_cycles rest e1 = Inr (replicate k EML_OK, e')"
    and p: "unat (SP (cpu e')) = unat (SP (cpu e1)) + k"
      "\<not> key_waiting e'" "\<not> brk_point_set e'"
      "calls_nested (memory (cpu e')) (PC (cpu e')) m"
    by blast
  have "run_cycles rs e = Inr (replicate (Suc k) EML_OK, e')"
    by (simp add: rs step r then_do_def)
  with p sp1 show ?case by auto
qed

lemma call_demo_nested: "calls_nested (memory (cpu call_demo)) 0x200 k"
  by (induction k) (simp_all add: call_demo_def eval_defs word_at_def)

text \<open>
  C7. Let no key wait be pending and no breakpoint be set. (1) From SP = 0, when the
  program counter leads through 17 nested CALL instructions, 16 cycles return \<open>EML_OK\<close>
  and leave SP = 16, and the 17th cycle returns \<open>EML_STACK_OVERFL\<close>. (2) A fetched
  RET (00EE) with SP = 0 returns \<open>EML_STACK_UNDERFL\<close>. (3) A CALL with room on the stack
  returns \<open>EML_OK\<close> and jumps to nnn; a RET executed in any later state that has the same
  SP and the same return slot as the state after the CALL returns \<open>EML_OK\<close> and sets PC
  to the address of the CALL plus 2, with SP as before the CALL.
\<close>

theorem stack_discipline:
  assumes nk: "\<not> key_waiting eml" and nb: "\<not> brk_point_set eml"
  shows
    "(SP (cpu eml) = 0 \<and> calls_nested (memory (cpu eml)) (PC (cpu eml)) 17 \<and> length rs = 16
        \<longrightarrow> (\<exists>e16 e17. run_cycles rs eml = Inr (replicate 16 EML_OK, e16)
              \<and> SP (cpu e16) = 16
              \<and> emulator_cycle r e16 = Inr (EML_STACK_OVERFL, e17)))
     \<and> (SP (cpu eml) = 0 \<and> unat (PC (cpu eml)) + 1 < MEM_SIZE \<and> fetch (cpu eml) = 0x00EE
        \<longrightarrow> (\<exists>e1. emulator_cycle r eml = Inr (EML_STACK_UNDERFL, e1)))
     \<and> (unat (SP (cpu eml)) < STACK_SIZE
        \<and> calls_nested (memory (cpu eml)) (PC (cpu eml)) 1
        \<longrightarrow> (\<exists>e1. emulator_cycle r1 eml = Inr (EML_OK, e1)
              \<and> PC (cpu e1) = op_nnn (fetch (cpu eml))
              \<and> (\<forall>e'. \<not> key_waiting e' \<and> \<not> brk_point_set e'
                      \<and> unat (PC (cpu e')) + 1 < MEM_SIZE \<and> fetch (cpu e') = 0x00EE
                      \<and> SP (cpu e') = SP (cpu e1)
                      \<and> stack (cpu e') (unat (SP (cpu eml)))
                          = stack (cpu e1) (unat (SP (cpu eml)))
                    \<longrightarrow> (\<exists>e2. emulator_cycle r2 e' = Inr (EML_OK, e2)
                          \<and> PC (cpu e2) = PC (cpu eml) + 2
                          \<and> unat (PC (cpu e2)) = unat (PC (cpu eml)) + 2
                          \<and> SP (cpu e2) = SP (cpu eml)))))"
proof (intro conjI impI)
  assume a: "SP (cpu eml) = 0 \<and> calls_nested (memory (cpu eml)) (PC (cpu eml)) 17
    \<and> length rs = 16"
  then have "unat (SP (cpu eml)) + 16 \<le> STACK_SIZE"
    and "calls_nested (memory (cpu eml)) (PC (cpu eml)) (16 + 1)"
    by (simp_all add: STACK_SIZE_def)
  with nested_calls_run [OF nk nb, of rs 16 1] a
  obtain e16 where run: "run_cycles rs eml = Inr (replicate 16 EML_OK, e16)"
    and sp: "unat (SP (cpu e16)) = unat (SP (cpu eml)) + 16"
    and k16: "\<not> key_waiting e16" "\<not> brk_point_set e16"
    and n16: "calls_nested (memory (cpu e16)) (PC (cpu e16)) 1"
    by blast
  from sp a have sp16: "unat (SP (cpu e16)) = 16" by simp
  then have "SP (cpu e16) = 16" by (simp add: word_unat_eq_iff)
  moreover from n16 have "unat (PC (cpu e16)) + 1 < MEM_SIZE"
    and "drop_bit 12 (fetch (cpu e16) AND 0xF000) = 0x2"
    by (simp_all add: fetch_word_at)
  from call_cycle [OF k16 this, of r] sp16
  have "\<exists>e17. emulator_cycle r e16 = Inr (EML_STACK_OVERFL, e17)"
    by (simp add: STACK_SIZE_def)
  ultimately show "\<exists>e16 e17. run_cycles rs eml = Inr (replicate 16 EML_OK, e16)
              \<and> SP (cpu e16) = 16
              \<and> emulator_cycle r e16 = Inr (EML_STACK_OVERFL, e17)"
    using run by blast
next
  assume a: "SP (cpu eml) = 0 \<and> unat (PC (cpu eml)) + 1 < MEM_SIZE \<and> fetch (cpu eml) = 0x00EE"
  then have pc: "unat (PC (cpu eml)) + 1 < MEM_SIZE" and op: "fetch (cpu eml) = 0x00EE"
    by simp_all
  from ret_cycle [OF nk nb pc op, of r] a
  show "\<exists>e1. emulator_cycle r eml = Inr (EML_STACK_UNDERFL, e1)" by simp
next
  assume a: "unat (SP (cpu eml)) < STACK_SIZE
        \<and> calls_nested (memory (cpu eml)) (PC (cpu eml)) 1"
  then have sp: "unat (SP (cpu eml)) < STACK_SIZE"
    and pc: "unat (PC (cpu eml)) + 1 < MEM_SIZE"
    and fam: "drop_bit 12 (fetch (cpu eml) AND 0xF000) = 0x2"
    by (simp_all add: fetch_word_at)
  define e1 where "e1 = eml\<lparr>opcode := fetch (cpu eml), prev_PC := PC (cpu eml),
                 cpu := (cpu eml)\<lparr>PC := op_nnn (fetch (cpu eml)),
                     stack := (stack (cpu eml))(unat (SP (cpu eml)) := PC (cpu eml) + 2),
                     SP := SP (cpu eml) + 1\<rparr>\<rparr>"
  have c1: "emulator_cycle r1 eml = Inr (EML_OK, e1)"
    using call_cycle [OF nk nb pc fam, of r1] sp by (simp add: e1_def)
  have sp1: "SP (cpu e1) \<noteq> 0" "SP (cpu e1) - 1 = SP (cpu eml)"
    using sp by (auto simp add: e1_def STACK_SIZE_def word_unat_eq_iff unat_word_ariths)
  have pc2: "unat (PC (cpu eml) + 2) = unat (PC (cpu eml)) + 2"
    using pc by (simp add: unat_word_ariths MEM_SIZE_def)
  have ret: "\<exists>e2. emulator_cycle r2 e' = Inr (EML_OK, e2)
                \<and> PC (cpu e2) = PC (cpu eml) + 2
                \<and> unat (PC (cpu e2)) = unat (PC (cpu eml)) + 2
                \<and> SP (cpu e2) = SP (cpu eml)"
    if b: "\<not> key_waiting e' \<and> \<not> brk_point_set e'
           \<and> unat (PC (cpu e')) + 1 < MEM_SIZE \<and> fetch (cpu e') = 0x00EE
           \<and> SP (cpu e') = SP (cpu e1)
           \<and> stack (cpu e') (unat (SP (cpu eml))) = stack (cpu e1) (unat (SP (cpu eml)))"
    for e'
  proof -
    from b have k: "\<not> key_waiting e'" "\<not> brk_point_set e'"
      and pc': "unat (PC (cpu e')) + 1 < MEM_SIZE" and op': "fetch (cpu e') = 0x00EE"
      and sp': "SP (cpu e') = SP (cpu e1)"
      and st': "stack (cpu e') (unat (SP (cpu eml))) = stack (cpu e1) (unat (SP (cpu eml)))"
      by simp_all
    have "stack (cpu e1) (unat (SP (cpu eml))) = PC (cpu eml) + 2"
      by (simp add: e1_def)
    with ret_cycle [OF k pc' op', of r2] sp1 sp sp' st' pc2
    show ?thesis by simp
  qed
  have "PC (cpu e1) = op_nnn (fetch (cpu eml))" by (simp add: e1_def)
  with c1 ret
  show "\<exists>e1. emulator_cycle r1 eml = Inr (EML_OK, e1)
              \<and> PC (cpu e1) = op_nnn (fetch (cpu eml))
              \<and> (\<forall>e'. \<not> key_waiting e' \<and> \<not> brk_point_set e'
                      \<and> unat (PC (cpu e')) + 1 < MEM_SIZE \<and> fetch (cpu e') = 0x00EE
                      \<and> SP (cpu e') = SP (cpu e1)
                      \<and> stack (cpu e') (unat (SP (cpu eml)))
                          = stack (cpu e1) (unat (SP (cpu eml)))
                    \<longrightarrow> (\<exists>e2. emulator_cycle r2 e' = Inr (EML_OK, e2)
                          \<and> PC (cpu e2) = PC (cpu eml) + 2
                          \<and> unat (PC (cpu e2)) = unat (PC (cpu eml)) + 2
                          \<and> SP (cpu e2) = SP (cpu eml)))"
    by blast
qed

text \<open>
  The theorem on \<open>2200\<close> (a subroutine calling itself), on \<open>00EE\<close> with the empty stack,
  and on \<open>2204\<close> with \<open>00EE\<close> at 0x204.
\<close>

theorem stack_discipline_witness:
  "\<not> key_waiting call_demo \<and> \<not> brk_point_set call_demo \<and> SP (cpu call_demo) = 0
   \<and> calls_nested (memory (cpu call_demo)) (PC (cpu call_demo)) 17
   \<and> length (replicate 16 (0 :: int)) = 16
   \<and> (\<exists>e16 e17. run_cycles (replicate 16 0) call_demo = Inr (replicate 16 EML_OK, e16)
         \<and> SP (cpu e16) = 16 \<and> emulator_cycle 0 e16 = Inr (EML_STACK_OVERFL, e17))
   \<and> \<not> key_waiting ret_demo \<and> \<not> brk_point_set ret_demo \<and> SP (cpu ret_demo) = 0
   \<and> unat (PC (cpu ret_demo)) + 1 < MEM_SIZE \<and> fetch (cpu ret_demo) = 0x00EE
   \<and> (\<exists>e1. emulator_cycle 0 ret_demo = Inr (EML_STACK_UNDERFL, e1))
   \<and> \<not> key_waiting callret_demo \<and> \<not> brk_point_set callret_demo
   \<and> unat (SP (cpu callret_demo)) < STACK_SIZE
   \<and> calls_nested (memory (cpu callret_demo)) (PC (cpu callret_demo)) 1
   \<and> emulator_cycle 0 callret_demo = Inr (EML_OK, callret_called)
   \<and> \<not> key_waiting callret_called \<and> \<not> brk_point_set callret_called
   \<and> unat (PC (cpu callret_called)) + 1 < MEM_SIZE \<and> fetch (cpu callret_called) = 0x00EE
   \<and> (\<exists>e2. emulator_cycle 0 callret_called = Inr (EML_OK, e2)
         \<and> PC (cpu e2) = 0x202 \<and> SP (cpu e2) = 0)"
proof -
  have c: "\<not> key_waiting call_demo" "\<not> brk_point_set call_demo"
    and c1: "SP (cpu call_demo) = 0 \<and> calls_nested (memory (cpu call_demo)) (PC (cpu call_demo)) 17
      \<and> length (replicate 16 (0 :: int)) = 16"
    using call_demo_nested [of 17] by (simp_all add: call_demo_def eval_defs)
  have r: "\<not> key_waiting ret_demo" "\<not> brk_point_set ret_demo"
    and r1: "SP (cpu ret_demo) = 0 \<and> unat (PC (cpu ret_demo)) + 1 < MEM_SIZE
      \<and> fetch (cpu ret_demo) = 0x00EE"
    by (simp_all add: ret_demo_def eval_defs)
  have pc: "PC (cpu callret_demo) = 0x200" and sp: "SP (cpu callret_demo) = 0"
    by (simp_all add: callret_demo_def eval_defs)
  have q: "\<not> key_waiting callret_demo" "\<not> brk_point_set callret_demo"
    and q1: "unat (SP (cpu callret_demo)) < STACK_SIZE
      \<and> calls_nested (memory (cpu callret_demo)) (PC (cpu callret_demo)) 1"
    by (simp_all add: callret_demo_def eval_defs word_at_def)
  have cl: "emulator_cycle 0 callret_demo = Inr (EML_OK, callret_called)"
    by (simp add: callret_called_def callret_demo_def eval_defs instr_CALL_nnn_def)
  have q2: "\<not> key_waiting callret_called \<and> \<not> brk_point_set callret_called
      \<and> unat (PC (cpu callret_called)) + 1 < MEM_SIZE \<and> fetch (cpu callret_called) = 0x00EE
      \<and> SP (cpu callret_called) = SP (cpu callret_called)
      \<and> stack (cpu callret_called) (unat (SP (cpu callret_demo)))
          = stack (cpu callret_called) (unat (SP (cpu callret_demo)))"
    by (simp add: callret_called_def callret_demo_def eval_defs)
  note t1 = stack_discipline [OF c, THEN conjunct1, rule_format, OF c1, of 0]
  note t2 = stack_discipline [OF r, THEN conjunct2, THEN conjunct1, rule_format, OF r1, of 0]
  from stack_discipline [OF q, THEN conjunct2, THEN conjunct2, rule_format, OF q1, of 0 0]
  obtain e1 where e1: "emulator_cycle 0 callret_demo = Inr (EML_OK, e1)"
    and rt: "\<And>e'. \<not> key_waiting e' \<and> \<not> brk_point_set e'
                      \<and> unat (PC (cpu e')) + 1 < MEM_SIZE \<and> fetch (cpu e') = 0x00EE
                      \<and> SP (cpu e') = SP (cpu e1)
                      \<and> stack (cpu e') (unat (SP (cpu callret_demo)))
                          = stack (cpu e1) (unat (SP (cpu callret_demo)))
                    \<Longrightarrow> (\<exists>e2. emulator_cycle 0 e' = Inr (EML_OK, e2)
                          \<and> PC (cpu e2) = PC (cpu callret_demo) + 2
                          \<and> unat (PC (cpu e2)) = unat (PC (cpu callret_demo)) + 2
                          \<and> SP (cpu e2) = SP (cpu callret_demo))"
    by blast
  from e1 cl have "e1 = callret_called" by simp
  with rt [of callret_called] q2
  have t3: "\<exists>e2. emulator_cycle 0 callret_called = Inr (EML_OK, e2)
         \<and> PC (cpu e2) = 0x202 \<and> SP (cpu e2) = 0"
    by (auto simp add: pc sp)
  from c c1 t1 r r1 t2 q q1 cl q2 t3 show ?thesis by blast
qed

section \<open>Sprite drawing\<close>

lemma mod_shift_le:
  assumes "(y + i) mod n = (y + i') mod n" and "i \<le> i'" and "i' < (n :: nat)"
  shows "i = i'"
proof (rule ccontr)
  assume ne: "i \<noteq> i'"
  from assms(1) have "(y + i') mod n = (y + i) mod n" by simp
  then have "n dvd (y + i') - (y + i)"
    using assms(2) by (simp add: mod_eq_dvd_iff_nat)
  then have "n dvd i' - i" by simp
  moreover from ne assms(2) have "0 < i' - i" by simp
  ultimately have "n \<le> i' - i" by (rule dvd_imp_le)
  with assms(3) show False by simp
qed

lemma mod_shift_inj:
  assumes e: "(y + i) mod n = (y + i') mod n" and "i < n" and "i' < (n :: nat)"
  shows "i = i'"
proof (cases "i \<le> i'")
  case True
  from e True assms(3) show ?thesis by (rule mod_shift_le)
next
  case False
  then have "i' \<le> i" by simp
  with e [symmetric] have "i' = i" using assms(2) by (rule mod_shift_le)
  then show ?thesis by simp
qed

lemma row_column_unique:
  assumes "a * 64 + b = a' * 64 + b'" and "b < 64" and "b' < (64 :: nat)"
  shows "a = a' \<and> b = b'"
proof -
  from assms have "(a * 64 + b) div 64 = (a' * 64 + b') div 64" by simp
  with assms(2,3) have "a = a'" by simp
  with assms(1) show ?thesis by simp
qed

lemma pixel_index_inj:
  assumes "pixel_index x y i j = pixel_index x y i' j'"
    and "i < 32" "i' < 32" "j < 64" "j' < 64"
  shows "i = i' \<and> j = j'"
proof -
  have "(x + j) mod 64 < 64" "(x + j') mod 64 < 64" by simp_all
  with assms(1) [unfolded pixel_index_def]
  have "(y + i) mod 32 = (y + i') mod 32 \<and> (x + j) mod 64 = (x + j') mod 64"
    by (rule row_column_unique)
  with assms(2-) show ?thesis by (auto dest: mod_shift_inj)
qed

lemma xor_step_fst: "fst (xor_step f b k dc) p = (if p = f k then fst dc p XOR b k else fst dc p)"
  by (simp add: xor_step_def)

lemma xor_step_snd:
  "snd (xor_step f b k dc) = (if fst dc (f k) = 1 \<and> b k = 1 then 1 else snd dc)"
  by (simp add: xor_step_def)

lemma xor_fold_other:
  "\<forall>k\<in>set ps. f k \<noteq> p \<Longrightarrow> fst (fold (xor_step f b) ps dc) p = fst dc p"
  by (induction ps arbitrary: dc) (simp_all add: xor_step_fst)

lemma xor_fold_at:
  "distinct (map f ps) \<Longrightarrow> k \<in> set ps \<Longrightarrow>
   fst (fold (xor_step f b) ps dc) (f k) = fst dc (f k) XOR b k"
proof (induction ps arbitrary: dc)
  case Nil
  then show ?case by simp
next
  case (Cons q ps)
  from Cons.prems have d: "distinct (map f ps)" by simp
  from Cons.prems have nq: "\<forall>k'\<in>set ps. f k' \<noteq> f q"
    by (auto simp add: image_iff)
  show ?case
  proof (cases "k \<in> set ps")
    case True
    with nq have "f k \<noteq> f q" by auto
    with Cons.IH [OF d True, of "xor_step f b q dc"] show ?thesis
      by (simp add: xor_step_fst)
  next
    case False
    with Cons.prems have kq: "k = q" by simp
    from xor_fold_other [OF nq, of b "xor_step f b q dc"] show ?thesis
      by (simp add: kq xor_step_fst)
  qed
qed

lemma xor_fold_collide:
  "distinct (map f ps) \<Longrightarrow>
   snd (fold (xor_step f b) ps dc)
     = (if \<exists>k\<in>set ps. fst dc (f k) = 1 \<and> b k = 1 then 1 else snd dc)"
proof (induction ps arbitrary: dc)
  case Nil
  then show ?case by simp
next
  case (Cons q ps)
  from Cons.prems have d: "distinct (map f ps)" by simp
  from Cons.prems have nq: "\<forall>k\<in>set ps. f k \<noteq> f q"
    by (auto simp add: image_iff)
  then have same: "\<forall>k\<in>set ps. fst (xor_step f b q dc) (f k) = fst dc (f k)"
    by (simp add: xor_step_fst)
  have "snd (fold (xor_step f b) (q # ps) dc)
      = (if \<exists>k\<in>set ps. fst (xor_step f b q dc) (f k) = 1 \<and> b k = 1 then 1
         else snd (xor_step f b q dc))"
    using Cons.IH [OF d, of "xor_step f b q dc"] by simp
  also have "\<dots> = (if \<exists>k\<in>set ps. fst dc (f k) = 1 \<and> b k = 1 then 1
         else snd (xor_step f b q dc))"
    using same by auto
  also have "\<dots> = (if \<exists>k\<in>set (q # ps). fst dc (f k) = 1 \<and> b k = 1 then 1 else snd dc)"
    by (auto simp add: xor_step_snd)
  finally show ?case .
qed

text \<open>The loops of the handler as one fold over the pairs of row and column.\<close>

lemma drw_pixel_xor_step:
  "drw_pixel x y (memory c (unat (I c) + i)) i
     = (\<lambda>j. xor_step (\<lambda>(i, j). pixel_index x y i j) (\<lambda>(i, j). sprite_bit c i j) (i, j))"
  by (intro ext)
    (simp add: drw_pixel_def xor_step_def pixel_index_def sprite_bit_def Let_def
      DISP_H_def DISP_W_def add.commute)

lemma drw_rows_fold:
  "\<forall>i\<in>set rows. unat (I c) + i < MEM_SIZE \<Longrightarrow>
   drw_rows c x y rows dc =
     Inr (fold (xor_step (\<lambda>(i, j). pixel_index x y i j) (\<lambda>(i, j). sprite_bit c i j))
            (List.product rows [0..<8]) dc)"
proof (induction rows arbitrary: dc)
  case Nil
  then show ?case by simp
next
  case (Cons i rows)
  have row: "fold (drw_pixel x y (memory c (unat (I c) + i)) i) js dc'
      = fold (xor_step (\<lambda>(i, j). pixel_index x y i j) (\<lambda>(i, j). sprite_bit c i j))
          (map (Pair i) js) dc'" for js dc'
    by (simp add: fold_map comp_def drw_pixel_xor_step)
  from Cons.prems have "mem_read c (unat (I c) + i) = Inr (memory c (unat (I c) + i))"
    by (simp add: mem_read_def)
  moreover from Cons.prems have "\<forall>k\<in>set rows. unat (I c) + k < MEM_SIZE" by simp
  note Cons.IH [OF this]
  ultimately show ?case
    by (simp add: then_do_def row)
qed

lemma pixel_index_lt: "pixel_index x y i j < DISP_SIZE"
proof -
  have "(y + i) mod 32 \<le> 31" "(x + j) mod 64 \<le> 63"
    by (simp_all add: less_Suc_eq_le [symmetric])
  then have "((y + i) mod 32) * 64 + (x + j) mod 64 \<le> 31 * 64 + 63"
    by (intro add_mono mult_le_mono1)
  then show ?thesis
    by (simp add: pixel_index_def DISP_SIZE_def DISP_W_def DISP_H_def)
qed

lemma unat_low_nibble: "unat (ucast ((opc :: 16 word) AND 0xF) :: 8 word) = unat (opc AND 0xF)"
  using and_F_lt [of opc] by (simp add: unsigned_ucast_eq take_bit_nat_eq_self)

lemma sprite_pixels_distinct:
  assumes "n \<le> 32"
  shows "distinct (map (\<lambda>(i, j). pixel_index x y i j) (List.product [0..<n] [0..<8]))"
proof -
  have "inj_on (\<lambda>(i, j). pixel_index x y i j) (set (List.product [0..<n] [0..<8]))"
  proof (rule inj_onI)
    fix p q
    assume p: "p \<in> set (List.product [0..<n] [0..<8])"
      and q: "q \<in> set (List.product [0..<n] [0..<8])"
      and e: "(case p of (i, j) \<Rightarrow> pixel_index x y i j) = (case q of (i, j) \<Rightarrow> pixel_index x y i j)"
    obtain i j i' j' where pq: "p = (i, j)" "q = (i', j')" by (cases p, cases q) auto
    from p q pq assms have "i < 32" "i' < 32" "j < 64" "j' < 64" by auto
    with e pq pixel_index_inj [of x y i j i' j'] show "p = q" by simp
  qed
  moreover have "distinct (List.product [0..<n] [0..<8])"
    by (simp add: distinct_product)
  ultimately show ?thesis by (simp add: distinct_map)
qed

lemma draw_result:
  assumes mem: "unat (I (cpu eml)) + unat (opc AND 0xF) \<le> MEM_SIZE"
  shows "instr_DRW_Vx_Vy_n opc eml =
    Inr (EML_REDRAW,
      set_V 0xF
        (snd (fold (xor_step (\<lambda>(i, j). pixel_index (unat (get_V eml (unat (op_x opc))))
                                  (unat (get_V eml (unat (op_y opc)))) i j)
                             (\<lambda>(i, j). sprite_bit (cpu eml) i j))
                (List.product [0..<unat (opc AND 0xF)] [0..<8]) (display (cpu eml), 0)))
        (eml\<lparr>cpu := (cpu eml)\<lparr>display :=
           fst (fold (xor_step (\<lambda>(i, j). pixel_index (unat (get_V eml (unat (op_x opc))))
                                  (unat (get_V eml (unat (op_y opc)))) i j)
                             (\<lambda>(i, j). sprite_bit (cpu eml) i j))
                (List.product [0..<unat (opc AND 0xF)] [0..<8]) (display (cpu eml), 0))\<rparr>\<rparr>))"
proof -
  from mem have "\<forall>i\<in>set [0..<unat (opc AND 0xF)]. unat (I (cpu eml)) + i < MEM_SIZE"
    by auto
  from drw_rows_fold [OF this] show ?thesis
    by (simp add: instr_DRW_Vx_Vy_n_def Let_def then_do_def unat_low_nibble)
qed

lemma upt_0_8: "[0..<8] = [0, 1, 2, 3, 4, 5, 6, 7 :: nat]"
  by code_simp

text \<open>
  C6 (as amended). Let the rows \<open>memory[I .. I+n)\<close> of the sprite be inside memory and let
  neither coordinate register be V[0xF]. Dxyn returns \<open>EML_REDRAW\<close> and XORs sprite pixel
  \<open>(i, j)\<close> onto the display pixel in row \<open>(Vy + i) mod 32\<close> and column \<open>(Vx + j) mod 64\<close>,
  leaving every other pixel as it was. Drawing the same sprite again restores the whole
  display. Over an empty display the first draw leaves V[0xF] = 0, and the second draw
  leaves V[0xF] = 1 if the sprite has a set pixel and V[0xF] = 0 if it has none.
\<close>

theorem sprite_draw_twice:
  assumes mem: "unat (I (cpu eml)) + unat (opc AND 0xF) \<le> MEM_SIZE"
    and xr: "unat (op_x opc) \<noteq> 0xF" and yr: "unat (op_y opc) \<noteq> 0xF"
  shows "\<exists>eml1 eml2.
      instr_DRW_Vx_Vy_n opc eml = Inr (EML_REDRAW, eml1)
    \<and> instr_DRW_Vx_Vy_n opc eml1 = Inr (EML_REDRAW, eml2)
    \<and> (\<forall>i<unat (opc AND 0xF). \<forall>j<8.
          display (cpu eml1)
            (pixel_index (unat (get_V eml (unat (op_x opc))))
                         (unat (get_V eml (unat (op_y opc)))) i j)
          = display (cpu eml)
              (pixel_index (unat (get_V eml (unat (op_x opc))))
                           (unat (get_V eml (unat (op_y opc)))) i j)
            XOR sprite_bit (cpu eml) i j)
    \<and> (\<forall>p. (\<forall>i<unat (opc AND 0xF). \<forall>j<8.
               p \<noteq> pixel_index (unat (get_V eml (unat (op_x opc))))
                                (unat (get_V eml (unat (op_y opc)))) i j)
           \<longrightarrow> display (cpu eml1) p = display (cpu eml) p)
    \<and> display (cpu eml2) = display (cpu eml)
    \<and> ((\<forall>p<DISP_SIZE. display (cpu eml) p = 0)
         \<longrightarrow> get_V eml1 0xF = 0
             \<and> get_V eml2 0xF
                 = (if \<exists>i<unat (opc AND 0xF). \<exists>j<8. sprite_bit (cpu eml) i j = 1
                    then 1 else 0))"
proof -
  define n where "n = unat (opc AND 0xF)"
  define x where "x = unat (get_V eml (unat (op_x opc)))"
  define y where "y = unat (get_V eml (unat (op_y opc)))"
  define f where "f = (\<lambda>(i, j). pixel_index x y i j)"
  define b where "b = (\<lambda>(i, j). sprite_bit (cpu eml) i j)"
  define ps where "ps = List.product [0..<n] [0..<8 :: nat]"
  define d0 where "d0 = display (cpu eml)"
  define dc1 where "dc1 = fold (xor_step f b) ps (d0, 0)"
  define eml1 where "eml1 = set_V 0xF (snd dc1) (eml\<lparr>cpu := (cpu eml)\<lparr>display := fst dc1\<rparr>\<rparr>)"
  define dc2 where "dc2 = fold (xor_step f b) ps (fst dc1, 0)"
  define eml2 where "eml2 = set_V 0xF (snd dc2) (eml1\<lparr>cpu := (cpu eml1)\<lparr>display := fst dc2\<rparr>\<rparr>)"
  have n16: "n < 16" unfolding n_def by (rule and_F_lt)
  then have dist: "distinct (map f ps)"
    unfolding f_def ps_def by (intro sprite_pixels_distinct) simp
  have in_ps: "(i, j) \<in> set ps \<longleftrightarrow> i < n \<and> j < 8" for i j
    by (auto simp add: ps_def)
  have first: "instr_DRW_Vx_Vy_n opc eml = Inr (EML_REDRAW, eml1)"
    using draw_result [OF mem]
    by (simp add: eml1_def dc1_def f_def b_def ps_def n_def x_def y_def d0_def)
  have same: "I (cpu eml1) = I (cpu eml)" "memory (cpu eml1) = memory (cpu eml)"
    "get_V eml1 (unat (op_x opc)) = get_V eml (unat (op_x opc))"
    "get_V eml1 (unat (op_y opc)) = get_V eml (unat (op_y opc))"
    "display (cpu eml1) = fst dc1"
    using xr yr by (simp_all add: eml1_def set_V_def get_V_def)
  have bit_same: "sprite_bit (cpu eml1) = sprite_bit (cpu eml)"
    by (intro ext) (simp add: sprite_bit_def same)
  from mem same have mem1: "unat (I (cpu eml1)) + unat (opc AND 0xF) \<le> MEM_SIZE" by simp
  have second: "instr_DRW_Vx_Vy_n opc eml1 = Inr (EML_REDRAW, eml2)"
    using draw_result [OF mem1]
    by (simp add: eml2_def dc2_def f_def b_def ps_def n_def x_def y_def same bit_same)
  have at1: "fst dc1 (f k) = d0 (f k) XOR b k" if "k \<in> set ps" for k
    unfolding dc1_def using xor_fold_at [OF dist that, of b "(d0, 0)"] by simp
  have other1: "fst dc1 p = d0 p" if "\<forall>k\<in>set ps. f k \<noteq> p" for p
    unfolding dc1_def using xor_fold_other [OF that, of b "(d0, 0)"] by simp
  have at2: "fst dc2 (f k) = fst dc1 (f k) XOR b k" if "k \<in> set ps" for k
    unfolding dc2_def using xor_fold_at [OF dist that, of b "(fst dc1, 0)"] by simp
  have other2: "fst dc2 p = fst dc1 p" if "\<forall>k\<in>set ps. f k \<noteq> p" for p
    unfolding dc2_def using xor_fold_other [OF that, of b "(fst dc1, 0)"] by simp
  have restored: "fst dc2 = d0"
  proof (rule ext)
    fix p
    show "fst dc2 p = d0 p"
    proof (cases "\<forall>k\<in>set ps. f k \<noteq> p")
      case True
      then show ?thesis by (simp add: other1 other2)
    next
      case False
      then obtain k where k: "k \<in> set ps" "f k = p" by blast
      from at1 [OF k(1)] at2 [OF k(1)] k(2) show ?thesis
        by (simp add: xor.assoc)
    qed
  qed
  have c1: "snd dc1 = (if \<exists>k\<in>set ps. d0 (f k) = 1 \<and> b k = 1 then 1 else 0)"
    unfolding dc1_def using xor_fold_collide [OF dist, of b "(d0, 0)"] by simp
  have c2: "snd dc2 = (if \<exists>k\<in>set ps. fst dc1 (f k) = 1 \<and> b k = 1 then 1 else 0)"
    unfolding dc2_def using xor_fold_collide [OF dist, of b "(fst dc1, 0)"] by simp
  have flags: "get_V eml1 0xF = 0
      \<and> get_V eml2 0xF = (if \<exists>i<n. \<exists>j<8. sprite_bit (cpu eml) i j = 1 then 1 else 0)"
    if empty: "\<forall>p<DISP_SIZE. d0 p = 0"
  proof -
    have z: "d0 (f k) = 0" for k
      using empty pixel_index_lt [of x y "fst k" "snd k"] by (simp add: f_def split_def)
    then have "snd dc1 = 0" by (simp add: c1)
    moreover have "fst dc1 (f k) = b k" if "k \<in> set ps" for k
      using at1 [OF that] z by simp
    then have "snd dc2 = (if \<exists>k\<in>set ps. b k = 1 then 1 else 0)"
      unfolding c2 by auto
    moreover have "(\<exists>k\<in>set ps. b k = 1) \<longleftrightarrow> (\<exists>i<n. \<exists>j<8. sprite_bit (cpu eml) i j = 1)"
    proof
      assume "\<exists>k\<in>set ps. b k = 1"
      then obtain i j where "(i, j) \<in> set ps" "b (i, j) = 1" by auto
      then have "i < n \<and> j < 8 \<and> sprite_bit (cpu eml) i j = 1"
        by (simp add: in_ps b_def)
      then show "\<exists>i<n. \<exists>j<8. sprite_bit (cpu eml) i j = 1" by blast
    next
      assume "\<exists>i<n. \<exists>j<8. sprite_bit (cpu eml) i j = 1"
      then obtain i j where "i < n" "j < 8" "sprite_bit (cpu eml) i j = 1" by blast
      then have "(i, j) \<in> set ps" "b (i, j) = 1" by (simp_all add: in_ps b_def)
      then show "\<exists>k\<in>set ps. b k = 1" by blast
    qed
    ultimately show ?thesis
      by (simp add: eml1_def eml2_def get_V_def set_V_def)
  qed
  have A: "\<forall>i<n. \<forall>j<8. display (cpu eml1) (pixel_index x y i j)
      = display (cpu eml) (pixel_index x y i j) XOR sprite_bit (cpu eml) i j"
    using at1 in_ps by (auto simp add: same f_def b_def d0_def)
  have B: "\<forall>p. (\<forall>i<n. \<forall>j<8. p \<noteq> pixel_index x y i j)
      \<longrightarrow> display (cpu eml1) p = display (cpu eml) p"
  proof (intro allI impI)
    fix p assume h: "\<forall>i<n. \<forall>j<8. p \<noteq> pixel_index x y i j"
    have "\<forall>k\<in>set ps. f k \<noteq> p"
    proof
      fix k assume k: "k \<in> set ps"
      obtain i j where ij: "k = (i, j)" by (cases k)
      with k have "i < n" "j < 8" by (simp_all add: in_ps)
      with h have "p \<noteq> pixel_index x y i j" by blast
      then show "f k \<noteq> p" by (simp add: ij f_def)
    qed
    from other1 [OF this] show "display (cpu eml1) p = display (cpu eml) p"
      by (simp add: same d0_def)
  qed
  have C: "display (cpu eml2) = display (cpu eml)"
    using restored by (simp add: eml2_def set_V_def d0_def)
  from first second A B C flags show ?thesis
    unfolding n_def x_def y_def d0_def by blast
qed

text \<open>
  The theorem on the 8x1 sprite 0xFF drawn at (60, 0): the columns 60 .. 63 and, wrapped,
  0 .. 3 of row 0 are lit by the first draw; the second draw restores the display and
  reports the collision.
\<close>

theorem sprite_draw_twice_witness:
  "unat (I (cpu draw_demo)) + unat ((0xD011 :: 16 word) AND 0xF) \<le> MEM_SIZE
   \<and> unat (op_x 0xD011) \<noteq> 0xF \<and> unat (op_y 0xD011) \<noteq> 0xF
   \<and> (\<exists>eml1 eml2.
         instr_DRW_Vx_Vy_n 0xD011 draw_demo = Inr (EML_REDRAW, eml1)
       \<and> instr_DRW_Vx_Vy_n 0xD011 eml1 = Inr (EML_REDRAW, eml2)
       \<and> display (cpu eml1) 60 = 1 \<and> display (cpu eml1) 63 = 1
       \<and> display (cpu eml1) 0 = 1 \<and> display (cpu eml1) 3 = 1
       \<and> display (cpu eml2) = display (cpu draw_demo)
       \<and> get_V eml1 0xF = 0 \<and> get_V eml2 0xF = 1)"
proof -
  have n: "unat ((0xD011 :: 16 word) AND 0xF) = 1" by simp
  have x: "unat (op_x 0xD011) = 0" and y: "unat (op_y 0xD011) = 1"
    by (simp_all add: op_x_def op_y_def)
  have st: "I (cpu draw_demo) = 0x206" "get_V draw_demo 0 = 60" "get_V draw_demo 1 = 0"
    "memory (cpu draw_demo) 0x206 = 0xFF" "\<forall>p<DISP_SIZE. display (cpu draw_demo) p = 0"
    by (simp_all add: draw_demo_def instr_LD_I_nnn_def eval_defs)
  have u: "unat (60 :: 8 word) = 60" "unat (0 :: 8 word) = 0" by simp_all
  have h1: "unat (I (cpu draw_demo)) + unat ((0xD011 :: 16 word) AND 0xF) \<le> MEM_SIZE"
    by (simp add: n st MEM_SIZE_def)
  have h2: "unat (op_x 0xD011) \<noteq> 0xF" and h3: "unat (op_y 0xD011) \<noteq> 0xF"
    by (simp_all add: x y)
  have bits: "sprite_bit (cpu draw_demo) 0 0 = 1" "sprite_bit (cpu draw_demo) 0 3 = 1"
    "sprite_bit (cpu draw_demo) 0 4 = 1" "sprite_bit (cpu draw_demo) 0 7 = 1"
    by (simp_all add: sprite_bit_def st)
  have idx: "pixel_index 60 0 0 0 = 60" "pixel_index 60 0 0 3 = 63"
    "pixel_index 60 0 0 4 = 0" "pixel_index 60 0 0 7 = 3"
    by (simp_all add: pixel_index_def)
  from sprite_draw_twice [OF h1 h2 h3, unfolded n x y st u]
  obtain eml1 where "\<exists>eml2.
       instr_DRW_Vx_Vy_n 0xD011 draw_demo = Inr (EML_REDRAW, eml1) \<and>
       instr_DRW_Vx_Vy_n 0xD011 eml1 = Inr (EML_REDRAW, eml2) \<and>
       (\<forall>i<1. \<forall>j<8. display (cpu eml1) (pixel_index 60 0 i j) =
                    display (cpu draw_demo) (pixel_index 60 0 i j) XOR
                    sprite_bit (cpu draw_demo) i j) \<and>
       (\<forall>p. (\<forall>i<1. \<forall>j<8. p \<noteq> pixel_index 60 0 i j) \<longrightarrow>
            display (cpu eml1) p = display (cpu draw_demo) p) \<and>
       display (cpu eml2) = display (cpu draw_demo) \<and>
       ((\<forall>p<DISP_SIZE. display (cpu draw_demo) p = 0) \<longrightarrow>
        get_V eml1 15 = 0 \<and>
        get_V eml2 15 =
        (if \<exists>i<1. \<exists>j<8. sprite_bit (cpu draw_demo) i j = 1 then 1 else 0))" ..
  then obtain eml2 where c:
      "instr_DRW_Vx_Vy_n 0xD011 draw_demo = Inr (EML_REDRAW, eml1) \<and>
       instr_DRW_Vx_Vy_n 0xD011 eml1 = Inr (EML_REDRAW, eml2) \<and>
       (\<forall>i<1. \<forall>j<8. display (cpu eml1) (pixel_index 60 0 i j) =
                    display (cpu draw_demo) (pixel_index 60 0 i j) XOR
                    sprite_bit (cpu draw_demo) i j) \<and>
       (\<forall>p. (\<forall>i<1. \<forall>j<8. p \<noteq> pixel_index 60 0 i j) \<longrightarrow>
            display (cpu eml1) p = display (cpu draw_demo) p) \<and>
       display (cpu eml2) = display (cpu draw_demo) \<and>
       ((\<forall>p<DISP_SIZE. display (cpu draw_demo) p = 0) \<longrightarrow>
        get_V eml1 15 = 0 \<and>
        get_V eml2 15 =
        (if \<exists>i<1. \<exists>j<8. sprite_bit (cpu draw_demo) i j = 1 then 1 else 0))" ..
  note d1 = c [THEN conjunct1]
    and d2 = c [THEN conjunct2, THEN conjunct1]
    and px = c [THEN conjunct2, THEN conjunct2, THEN conjunct1, rule_format]
    and rs = c [THEN conjunct2, THEN conjunct2, THEN conjunct2, THEN conjunct2, THEN conjunct1]
    and fl = c [THEN conjunct2, THEN conjunct2, THEN conjunct2, THEN conjunct2, THEN conjunct2,
                THEN mp, OF st(5)]
  have ex: "\<exists>i<1. \<exists>j<8. sprite_bit (cpu draw_demo) i j = (1 :: 8 word)"
    using bits(1) by (intro exI [of _ 0] conjI) simp_all
  have z: "display (cpu draw_demo) 60 = 0" "display (cpu draw_demo) 63 = 0"
    "display (cpu draw_demo) 0 = 0" "display (cpu draw_demo) 3 = 0"
    using st(5) by (simp_all add: DISP_SIZE_def DISP_W_def DISP_H_def)
  have p60: "display (cpu eml1) 60 = 1" using px [of 0 0] by (simp add: idx bits z)
  have p63: "display (cpu eml1) 63 = 1" using px [of 0 3] by (simp add: idx bits z)
  have p0: "display (cpu eml1) 0 = 1" using px [of 0 4] by (simp add: idx bits z)
  have p3: "display (cpu eml1) 3 = 1" using px [of 0 7] by (simp add: idx bits z)
  from fl ex have "get_V eml1 0xF = 0 \<and> get_V eml2 0xF = 1" by simp
  with h1 h2 h3 d1 d2 p60 p63 p0 p3 rs show ?thesis by blast
qed

text \<open>
  A blank sprite (D011 with the row byte 0) on the empty display: each draw returns the
  state unchanged, so the second draw leaves V[0xF] = 0, not 1.
\<close>

theorem sprite_draw_twice_counterexample:
  "instr_DRW_Vx_Vy_n 0xD011 blank_demo = Inr (EML_REDRAW, blank_demo)
   \<and> get_V blank_demo 0xF = 0"
  by (simp add: blank_demo_def instr_LD_I_nnn_def instr_DRW_Vx_Vy_n_def drw_pixel_def
      emulator_init_def Let_def then_do_def mem_read_def MEM_SIZE_def DISP_W_def DISP_H_def
      set_V_def get_V_def op_x_def op_y_def op_nnn_def chip8_fontset_def fun_eq_iff
      upt_0_8)

end
